theory Spec2Isabelle
  imports Main "HOL-Library.Word"
begin

section \<open>The HTTP connection of cpp-common (httpconnection.cpp)\<close>

text \<open>
  A shallow embedding of \<^verbatim>\<open>HttpConnection::send_request\<close>, of the pool entry it keeps for
  each thread and of the callbacks it hands to the transport. libcurl, the resolver, the
  clock and the random sampler are outside the class: what they return is an input of the
  model (the record \<open>environment\<close>), and what the class asks of them (a perform, a
  blacklist, a penalty, an abort event) is written to a log that the model returns.
  A call whose \<^verbatim>\<open>assert\<close> fails does not return: the model gives a \<open>failure\<close> for it.
  The model leaves out what no property below reads: the request header list, the
  per-call DNS override list given to \<^verbatim>\<open>CURLOPT_RESOLVE\<close>, and the trail events other
  than the abort event.
\<close>

subsection \<open>Transport codes\<close>

text \<open>
  The values of \<^verbatim>\<open>CURLcode\<close> that the class names, and \<open>CURLE_OTHER n\<close> for every other
  libcurl code \<open>n\<close>.
\<close>

datatype CURLcode =
    CURLE_OK
  | CURLE_URL_MALFORMAT
  | CURLE_NOT_BUILT_IN
  | CURLE_REMOTE_FILE_NOT_FOUND
  | CURLE_COULDNT_RESOLVE_PROXY
  | CURLE_COULDNT_RESOLVE_HOST
  | CURLE_COULDNT_CONNECT
  | CURLE_AGAIN
  | CURLE_REMOTE_ACCESS_DENIED
  | CURLE_OPERATION_TIMEDOUT
  | CURLE_SEND_ERROR
  | CURLE_RECV_ERROR
  | CURLE_OTHER nat

type_synonym HTTPCode = int

text \<open>
  Modelled from the spec: the constants \<^verbatim>\<open>HTTP_BAD_REQUEST\<close>, \<^verbatim>\<open>HTTP_NOT_FOUND\<close> and
  \<^verbatim>\<open>HTTP_SERVER_ERROR\<close> of httpconnection.h, with the values of the outcome table (400, 404
  and 500).
\<close>

definition HTTP_BAD_REQUEST :: HTTPCode where
  "HTTP_BAD_REQUEST = 400"

definition HTTP_NOT_FOUND :: HTTPCode where
  "HTTP_NOT_FOUND = 404"

definition HTTP_SERVER_ERROR :: HTTPCode where
  "HTTP_SERVER_ERROR = 500"

text \<open>
  \<^verbatim>\<open>curl_code_to_http_code(curl, code)\<close>. The first argument is what
  \<^verbatim>\<open>curl_easy_getinfo(curl, CURLINFO_RESPONSE_CODE)\<close> gives on the handle.
\<close>

fun curl_code_to_http_code :: "int \<Rightarrow> CURLcode \<Rightarrow> HTTPCode" where
  "curl_code_to_http_code http_code CURLE_OK = http_code"
| "curl_code_to_http_code http_code CURLE_URL_MALFORMAT = HTTP_BAD_REQUEST"
| "curl_code_to_http_code http_code CURLE_NOT_BUILT_IN = HTTP_BAD_REQUEST"
| "curl_code_to_http_code http_code CURLE_REMOTE_FILE_NOT_FOUND = HTTP_NOT_FOUND"
| "curl_code_to_http_code http_code CURLE_COULDNT_RESOLVE_PROXY = HTTP_NOT_FOUND"
| "curl_code_to_http_code http_code CURLE_COULDNT_RESOLVE_HOST = HTTP_NOT_FOUND"
| "curl_code_to_http_code http_code CURLE_COULDNT_CONNECT = HTTP_NOT_FOUND"
| "curl_code_to_http_code http_code CURLE_AGAIN = HTTP_NOT_FOUND"
| "curl_code_to_http_code http_code _ = HTTP_SERVER_ERROR"

subsection \<open>Targets\<close>

text \<open>
  Modelled from the spec: \<^verbatim>\<open>IP46Address\<close> and \<^verbatim>\<open>AddrInfo\<close> of utils.h, a target being the
  tuple of address family, address bytes, port and transport, equal to another when all
  four fields are.
\<close>

record IP46Address =
  af :: int
  addr :: "8 word list"

record AddrInfo =
  address :: IP46Address
  port :: int
  transport :: int

text \<open>
  \<^verbatim>\<open>IPPROTO_TCP\<close> is the protocol number of TCP in netinet/in.h; \<^verbatim>\<open>MAX_TARGETS\<close> is the
  constant of httpconnection.cpp.
\<close>

definition IPPROTO_TCP :: int where
  "IPPROTO_TCP = 6"

definition MAX_TARGETS :: int where
  "MAX_TARGETS = 5"

subsection \<open>The connection object and its pool entry\<close>

text \<open>
  Modelled from the spec: \<^verbatim>\<open>SNMP::IPCountTable\<close> of snmp_ip_count_table.h, a table of one
  counter per remote IP. \<^verbatim>\<open>get(ip)\<close> creates the row, with count 0, when it is absent;
  \<^verbatim>\<open>increment()\<close> and \<^verbatim>\<open>decrement()\<close> change the row's count by one and
  \<^verbatim>\<open>decrement()\<close> returns the new count; \<^verbatim>\<open>remove(ip)\<close> deletes the row.
\<close>

type_synonym IPCountTable = "string \<rightharpoonup> int"

definition row_count :: "IPCountTable \<Rightarrow> string \<Rightarrow> int" where
  "row_count t ip = (case t ip of None \<Rightarrow> 0 | Some n \<Rightarrow> n)"

definition get_increment :: "IPCountTable \<Rightarrow> string \<Rightarrow> IPCountTable" where
  "get_increment t ip = t(ip \<mapsto> row_count t ip + 1)"

definition get_decrement :: "IPCountTable \<Rightarrow> string \<Rightarrow> int \<times> IPCountTable" where
  "get_decrement t ip = (row_count t ip - 1, t(ip \<mapsto> row_count t ip - 1))"

definition remove_row :: "IPCountTable \<Rightarrow> string \<Rightarrow> IPCountTable" where
  "remove_row t ip = t(ip := None)"

text \<open>
  The fields of \<^verbatim>\<open>HttpConnection\<close> that \<^verbatim>\<open>send_request\<close> and the pool entry read:
  \<^verbatim>\<open>_host\<close>, \<^verbatim>\<open>_port\<close>, whether \<^verbatim>\<open>_load_monitor\<close> and \<^verbatim>\<open>_comm_monitor\<close> are set,
  \<^verbatim>\<open>_stat_table\<close> (\<open>None\<close> for \<^verbatim>\<open>NULL\<close>), and the number of times \<^verbatim>\<open>_lock\<close> has been
  taken.
\<close>

record HttpConnection =
  server_host :: string
  server_port :: int
  load_monitor :: bool
  comm_monitor :: bool
  stat_table :: "IPCountTable option"
  lock_count :: nat

text \<open>
  \<^verbatim>\<open>PoolEntry\<close>: \<^verbatim>\<open>_deadline_ms\<close> is an \<^verbatim>\<open>unsigned long\<close>, 64 bits wide, and its
  arithmetic wraps around.
\<close>

record PoolEntry =
  deadline_ms :: "64 word"
  remote_ip :: string

definition new_PoolEntry :: PoolEntry where
  "new_PoolEntry = \<lparr>deadline_ms = 0, remote_ip = []\<rparr>"

definition is_connection_expired :: "64 word \<Rightarrow> PoolEntry \<Rightarrow> bool" where
  "is_connection_expired now_ms e = (now_ms > deadline_ms e)"

text \<open>
  \<^verbatim>\<open>update_deadline(now_ms)\<close>. \<open>interval_ms\<close> is the sample that the call draws,
  \<^verbatim>\<open>(unsigned long)_rand()\<close>.
\<close>

definition update_deadline :: "64 word \<Rightarrow> 64 word \<Rightarrow> PoolEntry \<Rightarrow> PoolEntry" where
  "update_deadline now_ms interval_ms e =
     (if deadline_ms e = 0 \<or> deadline_ms e + interval_ms < now_ms
      then e\<lparr>deadline_ms := now_ms + interval_ms\<rparr>
      else e\<lparr>deadline_ms := deadline_ms e + interval_ms\<rparr>)"

text \<open>A sequence of updates of one entry, each with its clock reading and its sample.\<close>

fun update_deadlines :: "(64 word \<times> 64 word) list \<Rightarrow> PoolEntry \<Rightarrow> PoolEntry" where
  "update_deadlines [] e = e"
| "update_deadlines ((now_ms, interval_ms) # calls) e =
     update_deadlines calls (update_deadline now_ms interval_ms e)"

text \<open>
  The additions of a sequence of updates stay below \<open>2 ^ 64\<close>: no clock reading plus its
  sample, and no deadline plus the next sample, wraps around.
\<close>

fun within_range :: "(64 word \<times> 64 word) list \<Rightarrow> PoolEntry \<Rightarrow> bool" where
  "within_range [] e = True"
| "within_range ((now_ms, interval_ms) # calls) e =
     (unat (deadline_ms e) + unat interval_ms < 2 ^ 64 \<and>
      unat now_ms + unat interval_ms < 2 ^ 64 \<and>
      within_range calls (update_deadline now_ms interval_ms e))"

text \<open>
  \<^verbatim>\<open>update_snmp_ip_counts(value)\<close>, on the table, the entry's \<^verbatim>\<open>_remote_ip\<close> and the
  count of lock acquisitions: the lock is taken once, around both steps.
\<close>

definition update_snmp_ip_counts ::
  "string \<Rightarrow> string \<Rightarrow> IPCountTable \<times> nat \<Rightarrow> IPCountTable \<times> nat" where
  "update_snmp_ip_counts value old_remote_ip shared =
     (let (t, locks) = shared;
          t1 = (if old_remote_ip \<noteq> []
                then (let (n, t') = get_decrement t old_remote_ip
                      in if n = 0 then remove_row t' old_remote_ip else t')
                else t);
          t2 = (if value \<noteq> [] then get_increment t1 value else t1)
      in (t2, Suc locks))"

text \<open>\<^verbatim>\<open>set_remote_ip(value)\<close>, on the parent connection and the entry.\<close>

definition set_remote_ip ::
  "string \<Rightarrow> HttpConnection \<times> PoolEntry \<Rightarrow> HttpConnection \<times> PoolEntry" where
  "set_remote_ip value pe =
     (let (p, e) = pe
      in if value = remote_ip e then (p, e)
         else
           (let p' = (case stat_table p of
                        None \<Rightarrow> p
                      | Some t \<Rightarrow>
                          (let (t', locks) = update_snmp_ip_counts value (remote_ip e) (t, lock_count p)
                           in p\<lparr>stat_table := Some t', lock_count := locks\<rparr>))
            in (p', e\<lparr>remote_ip := value\<rparr>)))"

subsection \<open>The callbacks given to the transport\<close>

text \<open>\<^verbatim>\<open>::isspace\<close> and \<^verbatim>\<open>::tolower\<close> in the C locale.\<close>

definition isspace :: "char \<Rightarrow> bool" where
  "isspace c = (c \<in> set [CHR 0x20, CHR 0x09, CHR 0x0A, CHR 0x0B, CHR 0x0C, CHR 0x0D])"

definition tolower :: "char \<Rightarrow> char" where
  "tolower c =
     (case map_of (zip ''ABCDEFGHIJKLMNOPQRSTUVWXYZ'' ''abcdefghijklmnopqrstuvwxyz'') c of
        Some l \<Rightarrow> l
      | None \<Rightarrow> c)"

text \<open>
  \<^verbatim>\<open>write_headers\<close> reads one header line. \<open>header_key\<close> and \<open>header_val\<close> are the key and
  the value it computes: the line is cut at its first colon (without a colon the whole
  line is the key and the value is empty), the key is lowercased, and the white space is
  taken out of both. The entry of the map is overwritten.
\<close>

definition header_key :: "string \<Rightarrow> string" where
  "header_key headerString =
     filter (\<lambda>c. \<not> isspace c) (map tolower (takeWhile (\<lambda>c. c \<noteq> CHR '':'') headerString))"

definition header_val :: "string \<Rightarrow> string" where
  "header_val headerString =
     filter (\<lambda>c. \<not> isspace c)
       (case dropWhile (\<lambda>c. c \<noteq> CHR '':'') headerString of
          [] \<Rightarrow> []
        | colon # rest \<Rightarrow> rest)"

definition write_headers :: "string \<Rightarrow> (string \<rightharpoonup> string) \<Rightarrow> (string \<rightharpoonup> string)" where
  "write_headers headerString headers = headers(header_key headerString \<mapsto> header_val headerString)"

text \<open>\<^verbatim>\<open>string_store\<close> appends one block of the body to the document.\<close>

definition string_store :: "string \<Rightarrow> string \<Rightarrow> string" where
  "string_store block stream = stream @ block"

subsection \<open>What is outside the class\<close>

text \<open>
  What one \<^verbatim>\<open>curl_easy_perform\<close> does: the code it returns, the value that
  \<^verbatim>\<open>CURLINFO_RESPONSE_CODE\<close> has afterwards, the header lines it hands to the header
  callback and the blocks of the body it hands to the write callback, in order.
\<close>

record transport_result =
  rc :: CURLcode
  response_code :: int
  header_lines :: "string list"
  body_blocks :: "string list"

text \<open>
  The inputs of one call of \<^verbatim>\<open>send_request\<close>:
  \<^item> \<open>private_rc\<close>: the code of \<^verbatim>\<open>curl_easy_getinfo(curl, CURLINFO_PRIVATE, ...)\<close>;
  \<^item> \<open>clock_rv\<close>, \<open>tv_sec\<close>, \<open>tv_nsec\<close>: what \<^verbatim>\<open>clock_gettime(CLOCK_MONOTONIC, &tp)\<close>
    returns and stores;
  \<^item> \<open>rand_sample\<close>: \<^verbatim>\<open>(unsigned long)_rand()\<close>, the next sample of the entry's sampler;
  \<^item> \<open>resolve\<close>: the targets that \<^verbatim>\<open>_resolver->resolve(_host, _port, MAX_TARGETS, ...)\<close>
    returns;
  \<^item> \<open>primary_ip\<close>: the string of \<^verbatim>\<open>CURLINFO_PRIMARY_IP\<close> before the call, \<open>None\<close> when
    \<^verbatim>\<open>curl_easy_getinfo\<close> does not return \<^verbatim>\<open>CURLE_OK\<close>;
  \<^item> \<open>parse_ip_target\<close>: the address that \<^verbatim>\<open>_resolver->parse_ip_target\<close> leaves in its
    out-parameter;
  \<^item> \<open>inet_ntop\<close>: the printable form of an address;
  \<^item> \<open>buf_after_loop\<close>: what is read, after the loop, through \<^verbatim>\<open>remote_ip\<close>. The pointer
    goes into \<^verbatim>\<open>char buf[100]\<close>, an array declared in the body of the loop, where
    \<^verbatim>\<open>inet_ntop\<close> wrote the printable address of the last target; once the loop is left
    the array is out of scope, and the bytes found there are what the build and the stack
    make of it. The argument is the string that was written;
  \<^item> \<open>curl_easy_perform\<close>: what the transport does at the \<open>n\<close>-th perform of the call
    (counted from 0), on the given target, with the given \<^verbatim>\<open>CURLOPT_FRESH_CONNECT\<close>.
\<close>

record environment =
  private_rc :: CURLcode
  clock_rv :: int
  tv_sec :: int
  tv_nsec :: int
  rand_sample :: "64 word"
  resolve :: "string \<Rightarrow> int \<Rightarrow> int \<Rightarrow> AddrInfo list"
  primary_ip :: "string option"
  parse_ip_target :: "string \<Rightarrow> IP46Address"
  inet_ntop :: "IP46Address \<Rightarrow> string"
  buf_after_loop :: "string \<Rightarrow> string"
  curl_easy_perform :: "nat \<Rightarrow> AddrInfo \<Rightarrow> bool \<Rightarrow> transport_result"

datatype HttpErrorResponseTypes = Temporary | Permanent

datatype comm_event = inform_success "64 word" | inform_failure "64 word"

text \<open>One perform that the call made: its target, its fresh-connection flag, its result.\<close>

record attempt =
  target :: AddrInfo
  fresh_connect :: bool
  outcome :: transport_result

subsection \<open>The attempt loop\<close>

text \<open>
  The variables of the loop of \<^verbatim>\<open>send_request\<close>: the pool entry, the two out-parameters
  (\<open>doc\<close> and, for a PUT or a POST, the map of response headers), \<open>rc\<close>, the response code
  of the handle, \<open>remote_ip\<close> (\<open>None\<close> for \<^verbatim>\<open>NULL\<close>, otherwise what \<^verbatim>\<open>inet_ntop\<close> wrote to
  \<^verbatim>\<open>buf\<close> in the current turn) and the three counters; then the log:
  the performs made, the calls of \<^verbatim>\<open>_resolver->blacklist\<close> and the events of
  \<^verbatim>\<open>sas_log_http_abort\<close>.
\<close>

record loop_state =
  l_entry :: PoolEntry
  l_doc :: string
  l_headers :: "string \<rightharpoonup> string"
  l_rc :: CURLcode
  l_response_code :: int
  l_remote_ip :: "string option"
  num_http_503_responses :: int
  num_http_504_responses :: int
  num_timeouts_or_io_errors :: int
  performed :: "attempt list"
  blacklist_calls :: "AddrInfo list"
  abort_events :: "HttpErrorResponseTypes list"

text \<open>
  The failure mode of an attempt that did not succeed (\<^verbatim>\<open>// Determine the failure mode and
  update the correct counter\<close>): the flag \<^verbatim>\<open>fatal_http_error\<close> and the counters.
\<close>

definition count_failure :: "CURLcode \<Rightarrow> int \<Rightarrow> loop_state \<Rightarrow> bool \<times> loop_state" where
  "count_failure code http_rc s =
     (if http_rc \<ge> 400 then
        (if http_rc = 503 then
           (False, s\<lparr>num_http_503_responses := num_http_503_responses s + 1\<rparr>)
         else if http_rc = 504 then
           (False, s\<lparr>num_http_504_responses := num_http_504_responses s + 1\<rparr>)
         else (True, s))
      else if code = CURLE_REMOTE_FILE_NOT_FOUND \<or> code = CURLE_REMOTE_ACCESS_DENIED then
        (True, s)
      else if code = CURLE_OPERATION_TIMEDOUT \<or> code = CURLE_SEND_ERROR \<or> code = CURLE_RECV_ERROR then
        (False, s\<lparr>num_timeouts_or_io_errors := num_timeouts_or_io_errors s + 1\<rparr>)
      else (False, s))"

text \<open>
  One turn of the loop, on target \<open>i\<close>, the \<open>n\<close>-th of the call. \<open>hdr\<close> says that
  \<^verbatim>\<open>CURLOPT_HEADERFUNCTION\<close> is \<^verbatim>\<open>write_headers\<close>. The result says whether the loop goes
  on (\<open>False\<close> at a \<^verbatim>\<open>break\<close>).
\<close>

definition attempt_target ::
  "environment \<Rightarrow> bool \<Rightarrow> bool \<Rightarrow> 64 word \<Rightarrow> nat \<Rightarrow> AddrInfo \<Rightarrow> loop_state \<Rightarrow> bool \<times> loop_state" where
  "attempt_target w hdr recycle_conn now_ms n i s =
     (let res = curl_easy_perform w n i recycle_conn;
          s1 = s\<lparr>l_remote_ip := Some (inet_ntop w (address i)),
                 l_doc := fold string_store (body_blocks res) [],
                 l_headers := (if hdr then fold write_headers (header_lines res) (l_headers s)
                               else l_headers s),
                 l_rc := rc res,
                 l_response_code := response_code res,
                 performed := performed s @ [\<lparr>target = i, fresh_connect = recycle_conn, outcome = res\<rparr>]\<rparr>;
          http_rc = (if rc res = CURLE_OK then response_code res else 0)
      in if rc res = CURLE_OK \<and> \<not> (http_rc \<ge> 400) then
           (False, if recycle_conn
                   then s1\<lparr>l_entry := update_deadline now_ms (rand_sample w) (l_entry s1)\<rparr>
                   else s1)
         else
           (let s2 = (if recycle_conn \<and> \<not> (http_rc \<ge> 400) \<and>
                         rc res \<noteq> CURLE_REMOTE_FILE_NOT_FOUND \<and>
                         rc res \<noteq> CURLE_REMOTE_ACCESS_DENIED
                      then s1\<lparr>blacklist_calls := blacklist_calls s1 @ [i]\<rparr>
                      else s1);
                (fatal_http_error, s3) = count_failure (rc res) http_rc s2
            in if num_http_503_responses s3 + num_timeouts_or_io_errors s3 \<ge> 2 \<or>
                  num_http_504_responses s3 \<ge> 1 \<or>
                  fatal_http_error
               then (False, s3\<lparr>abort_events := abort_events s3 @
                                   [if fatal_http_error then Permanent else Temporary]\<rparr>)
               else (True, s3)))"

fun attempt_loop ::
  "environment \<Rightarrow> bool \<Rightarrow> bool \<Rightarrow> 64 word \<Rightarrow> nat \<Rightarrow> AddrInfo list \<Rightarrow> loop_state \<Rightarrow> loop_state" where
  "attempt_loop w hdr recycle_conn now_ms n [] s = s"
| "attempt_loop w hdr recycle_conn now_ms n (i # targets) s =
     (case attempt_target w hdr recycle_conn now_ms n i s of
        (True, s') \<Rightarrow> attempt_loop w hdr recycle_conn now_ms (Suc n) targets s'
      | (False, s') \<Rightarrow> s')"

subsection \<open>\<^verbatim>\<open>send_request\<close>\<close>

text \<open>
  The current connection's target goes to the front of the list when the connection is not
  recycled (\<^verbatim>\<open>// If we're not recycling the connection, try to get the current connection IP
  address and add it to the front of the target list (if it was there)\<close>).
\<close>

definition current_target :: "HttpConnection \<Rightarrow> environment \<Rightarrow> string \<Rightarrow> AddrInfo" where
  "current_target c w ip =
     \<lparr>address = parse_ip_target w ip,
      port = (if server_port c \<noteq> 0 then server_port c else 80),
      transport = IPPROTO_TCP\<rparr>"

definition current_first ::
  "HttpConnection \<Rightarrow> environment \<Rightarrow> bool \<Rightarrow> AddrInfo list \<Rightarrow> AddrInfo list" where
  "current_first c w recycle_conn targets =
     (if \<not> recycle_conn then
        (case primary_ip w of
           None \<Rightarrow> targets
         | Some ip \<Rightarrow>
             (let ai = current_target c w ip;
                  initialSize = int (length targets);
                  erased = removeAll ai targets
              in if int (length erased) < initialSize then ai # erased else erased))
      else targets)"

text \<open>
  A list of one target is cloned (\<^verbatim>\<open>// If the list of targets only contains 1 target, clone
  it - we always want to retry at least once\<close>).
\<close>

definition clone_single :: "AddrInfo list \<Rightarrow> AddrInfo list" where
  "clone_single targets = (if length targets = 1 then targets @ [targets ! 0] else targets)"

text \<open>
  The clock reading of a call, \<^verbatim>\<open>unsigned long now_ms = tp.tv_sec * 1000 + (tp.tv_nsec /
  1000000)\<close>, and the list that the loop of the call goes through.
\<close>

definition now_ms_of :: "environment \<Rightarrow> 64 word" where
  "now_ms_of w = word_of_int (tv_sec w * 1000 + tv_nsec w div 1000000)"

definition call_targets :: "HttpConnection \<Rightarrow> environment \<Rightarrow> PoolEntry \<Rightarrow> AddrInfo list" where
  "call_targets c w e =
     clone_single
       (current_first c w (is_connection_expired (now_ms_of w) e)
          (resolve w (server_host c) (server_port c) MAX_TARGETS))"

text \<open>
  What a call works on, and what it leaves: the connection object, the pool entry of the
  thread and the two out-parameters.
\<close>

record call_state =
  conn :: HttpConnection
  entry :: PoolEntry
  doc :: string
  headers :: "string \<rightharpoonup> string"

text \<open>
  What a call returns: the code, the state it leaves, and the log of what it asked of the
  transport, the resolver, the load monitor, the communication monitor and the trail.
\<close>

record call_result =
  http_code :: HTTPCode
  after :: call_state
  attempts :: "attempt list"
  blacklisted :: "AddrInfo list"
  incr_penalties :: nat
  aborts :: "HttpErrorResponseTypes list"
  comm_events :: "comm_event list"

text \<open>
  A call that does not return: one of the two \<^verbatim>\<open>assert\<close>s fails, or \<^verbatim>\<open>remote_ip\<close> is
  \<^verbatim>\<open>NULL\<close> where a string is built from it.
\<close>

datatype failure = Assertion_failed | Null_remote_ip

definition initial_loop_state :: "call_state \<Rightarrow> loop_state" where
  "initial_loop_state st =
     \<lparr>l_entry = entry st,
      l_doc = doc st,
      l_headers = headers st,
      l_rc = CURLE_COULDNT_RESOLVE_HOST,
      l_response_code = 0,
      l_remote_ip = None,
      num_http_503_responses = 0,
      num_http_504_responses = 0,
      num_timeouts_or_io_errors = 0,
      performed = [],
      blacklist_calls = [],
      abort_events = []\<rparr>"

text \<open>
  What follows the loop: the penalty, the remote IP of the entry, the communication
  monitor, the code returned. \<^verbatim>\<open>entry->set_remote_ip(remote_ip)\<close> builds its string from
  the pointer when \<^verbatim>\<open>buf\<close> is out of scope: it gets \<open>buf_after_loop\<close> of what was written.
\<close>

definition finish_request ::
  "environment \<Rightarrow> HttpConnection \<Rightarrow> 64 word \<Rightarrow> loop_state \<Rightarrow> failure + call_result" where
  "finish_request w c now_ms s =
     (let penalties = (if (num_http_503_responses s \<ge> 2 \<or> num_http_504_responses s \<ge> 1) \<and>
                          load_monitor c
                       then 1 else 0);
          code = curl_code_to_http_code (l_response_code s) (l_rc s)
      in if l_rc s = CURLE_OK then
           (case l_remote_ip s of
              None \<Rightarrow> Inl Null_remote_ip
            | Some ip \<Rightarrow>
                (let (c', e') = set_remote_ip (buf_after_loop w ip) (c, l_entry s)
                 in Inr \<lparr>http_code = code,
                         after = \<lparr>conn = c', entry = e', doc = l_doc s, headers = l_headers s\<rparr>,
                         attempts = performed s,
                         blacklisted = blacklist_calls s,
                         incr_penalties = penalties,
                         aborts = abort_events s,
                         comm_events =
                           (if comm_monitor c
                            then (if num_http_503_responses s \<ge> 2
                                  then [inform_failure now_ms] else [inform_success now_ms])
                            else [])\<rparr>))
         else
           (let (c', e') = set_remote_ip [] (c, l_entry s)
            in Inr \<lparr>http_code = code,
                    after = \<lparr>conn = c', entry = e', doc = l_doc s, headers = l_headers s\<rparr>,
                    attempts = performed s,
                    blacklisted = blacklist_calls s,
                    incr_penalties = penalties,
                    aborts = abort_events s,
                    comm_events = (if comm_monitor c then [inform_failure now_ms] else [])\<rparr>))"

text \<open>
  \<^verbatim>\<open>send_request\<close>. \<open>hdr\<close> says that the caller has set \<^verbatim>\<open>CURLOPT_HEADERFUNCTION\<close> to
  \<^verbatim>\<open>write_headers\<close> and \<^verbatim>\<open>CURLOPT_WRITEHEADER\<close> to its map of headers.
\<close>

definition send_request :: "environment \<Rightarrow> bool \<Rightarrow> call_state \<Rightarrow> failure + call_result" where
  "send_request w hdr st =
     (if private_rc w \<noteq> CURLE_OK then Inl Assertion_failed
      else if clock_rv w \<noteq> 0 then Inl Assertion_failed
      else
        (let now_ms = now_ms_of w;
             recycle_conn = is_connection_expired now_ms (entry st);
             targets = call_targets (conn st) w (entry st)
         in finish_request w (conn st) now_ms
              (attempt_loop w hdr recycle_conn now_ms 0 targets (initial_loop_state st))))"

text \<open>
  The four methods. \<^verbatim>\<open>send_put\<close> and \<^verbatim>\<open>send_post\<close> register \<^verbatim>\<open>write_headers\<close> on the
  caller's map before the request; \<^verbatim>\<open>send_get\<close> and \<^verbatim>\<open>send_delete\<close> do not, and
  \<^verbatim>\<open>reset_curl_handle\<close> takes the registration away at the end of every request.
\<close>

definition send_put :: "environment \<Rightarrow> call_state \<Rightarrow> failure + call_result" where
  "send_put w st = send_request w True st"

definition send_post :: "environment \<Rightarrow> call_state \<Rightarrow> failure + call_result" where
  "send_post w st = send_request w True st"

definition send_get :: "environment \<Rightarrow> call_state \<Rightarrow> failure + call_result" where
  "send_get w st = send_request w False st"

definition send_delete :: "environment \<Rightarrow> call_state \<Rightarrow> failure + call_result" where
  "send_delete w st = send_request w False st"

subsection \<open>The classes of an attempt, in the words of the specification\<close>

text \<open>
  The specification sorts the outcome of an attempt into \<open>ok\<close>, \<open>http_503\<close>, \<open>http_504\<close>,
  \<open>fatal_http\<close>, \<open>not_found_or_denied\<close> (treated as fatal), \<open>timeout_or_io\<close> and
  \<open>connect_failure\<close> (any other transport failure). The properties of the loop are stated
  with these classes, on the log of the attempts of a call.
\<close>

definition attempt_ok :: "attempt \<Rightarrow> bool" where
  "attempt_ok a = (rc (outcome a) = CURLE_OK \<and> response_code (outcome a) < 400)"

definition http_503 :: "attempt \<Rightarrow> bool" where
  "http_503 a = (rc (outcome a) = CURLE_OK \<and> response_code (outcome a) = 503)"

definition http_504 :: "attempt \<Rightarrow> bool" where
  "http_504 a = (rc (outcome a) = CURLE_OK \<and> response_code (outcome a) = 504)"

definition fatal_http :: "attempt \<Rightarrow> bool" where
  "fatal_http a = (rc (outcome a) = CURLE_OK \<and> response_code (outcome a) \<ge> 400 \<and>
                   response_code (outcome a) \<noteq> 503 \<and> response_code (outcome a) \<noteq> 504)"

definition not_found_or_denied :: "attempt \<Rightarrow> bool" where
  "not_found_or_denied a = (rc (outcome a) = CURLE_REMOTE_FILE_NOT_FOUND \<or>
                            rc (outcome a) = CURLE_REMOTE_ACCESS_DENIED)"

definition timeout_or_io :: "attempt \<Rightarrow> bool" where
  "timeout_or_io a = (rc (outcome a) = CURLE_OPERATION_TIMEDOUT \<or>
                      rc (outcome a) = CURLE_SEND_ERROR \<or>
                      rc (outcome a) = CURLE_RECV_ERROR)"

definition connect_failure :: "attempt \<Rightarrow> bool" where
  "connect_failure a = (rc (outcome a) \<noteq> CURLE_OK \<and> \<not> not_found_or_denied a \<and> \<not> timeout_or_io a)"

definition fatal :: "attempt \<Rightarrow> bool" where
  "fatal a = (fatal_http a \<or> not_found_or_denied a)"

definition count_of :: "(attempt \<Rightarrow> bool) \<Rightarrow> attempt list \<Rightarrow> int" where
  "count_of P as = int (length (filter P as))"

text \<open>
  The stopping rule after the attempts \<open>as\<close>, the last of which has just been classified
  and has failed: a fatal error just occurred, or the 503 responses and the timeouts or
  I/O errors so far are two or more, or there has been a 504 response. \<open>stopped as\<close> says
  that the loop ends after \<open>as\<close> with targets left or not: the last attempt succeeded, or
  the stopping rule holds.
\<close>

definition budget_spent :: "attempt list \<Rightarrow> bool" where
  "budget_spent as =
     (count_of http_503 as + count_of timeout_or_io as \<ge> 2 \<or> count_of http_504 as \<ge> 1)"

definition stop_rule :: "attempt list \<Rightarrow> bool" where
  "stop_rule as = (fatal (last as) \<or> budget_spent as)"

definition stopped :: "attempt list \<Rightarrow> bool" where
  "stopped as = (as \<noteq> [] \<and> (attempt_ok (last as) \<or> stop_rule as))"

text \<open>The attempts that the resolver is told of: the guard of \<^verbatim>\<open>_resolver->blacklist(*i)\<close>.\<close>

definition blacklist_due :: "attempt \<Rightarrow> bool" where
  "blacklist_due a = (fresh_connect a \<and> rc (outcome a) \<noteq> CURLE_OK \<and> \<not> not_found_or_denied a)"

text \<open>
  The \<open>n\<close>-th perform of a call, on target \<open>i\<close>, as the log records it, and the performs
  on a list of targets from the \<open>n\<close>-th on.
\<close>

definition made :: "environment \<Rightarrow> bool \<Rightarrow> nat \<Rightarrow> AddrInfo \<Rightarrow> attempt" where
  "made w recycle_conn n i =
     \<lparr>target = i, fresh_connect = recycle_conn, outcome = curl_easy_perform w n i recycle_conn\<rparr>"

definition performs :: "environment \<Rightarrow> bool \<Rightarrow> nat \<Rightarrow> AddrInfo list \<Rightarrow> attempt list" where
  "performs w recycle_conn n targets = map (\<lambda>(j, t). made w recycle_conn j t) (enumerate n targets)"

text \<open>
  The invariant of the loop: the counters, the blacklist calls, the headers, \<open>rc\<close>,
  \<open>remote_ip\<close> and \<open>doc\<close> are what the log of the attempts says. \<open>going\<close> holds at the
  head of the loop: no abort event yet, the deadline untouched, and no attempt so far
  has ended the loop.
\<close>

definition tracks :: "environment \<Rightarrow> bool \<Rightarrow> bool \<Rightarrow> call_state \<Rightarrow> loop_state \<Rightarrow> bool" where
  "tracks w hdr recycle_conn st s =
     (num_http_503_responses s = count_of http_503 (performed s) \<and>
      num_http_504_responses s = count_of http_504 (performed s) \<and>
      num_timeouts_or_io_errors s = count_of timeout_or_io (performed s) \<and>
      blacklist_calls s = map target (filter blacklist_due (performed s)) \<and>
      (\<forall>a \<in> set (performed s). fresh_connect a = recycle_conn) \<and>
      l_headers s =
        (if hdr
         then fold write_headers (concat (map (\<lambda>a. header_lines (outcome a)) (performed s))) (headers st)
         else headers st) \<and>
      (if performed s = []
       then l_rc s = CURLE_COULDNT_RESOLVE_HOST \<and> l_remote_ip s = None \<and> l_doc s = doc st
       else l_rc s = rc (outcome (last (performed s))) \<and>
            l_response_code s = response_code (outcome (last (performed s))) \<and>
            l_remote_ip s = Some (inet_ntop w (address (target (last (performed s))))) \<and>
            l_doc s = concat (body_blocks (outcome (last (performed s))))))"

definition going :: "call_state \<Rightarrow> loop_state \<Rightarrow> bool" where
  "going st s =
     (abort_events s = [] \<and> l_entry s = entry st \<and>
      (\<forall>k. 0 < k \<and> k \<le> length (performed s) \<longrightarrow> \<not> stopped (take k (performed s))))"

text \<open>The state that the loop of a call leaves.\<close>

definition loop_of :: "environment \<Rightarrow> bool \<Rightarrow> call_state \<Rightarrow> loop_state" where
  "loop_of w hdr st =
     attempt_loop w hdr (is_connection_expired (now_ms_of w) (entry st)) (now_ms_of w) 0
       (call_targets (conn st) w (entry st)) (initial_loop_state st)"

subsection \<open>Example calls\<close>

text \<open>
  Concrete calls, on which the model is run: targets \<open>10.0.0.n:8080\<close> over TCP, a
  transport that answers the performs of the call from a list, a connection with a load
  monitor, a communication monitor and a statistics table, and a pool entry that is new
  (\<open>fresh_state\<close>: the deadline is 0, so the connection counts as expired and every attempt
  forces a new connection) or warm (\<open>warm_state\<close>: connected to \<open>10.0.0.2\<close>, the deadline
  not reached). The clock reads 100 s. In \<open>example_env\<close> the bytes of \<^verbatim>\<open>buf\<close> are still
  there after the loop; \<open>call_buf_reused\<close> is the call of \<open>call_single_ok\<close> in a build
  where the place of \<^verbatim>\<open>buf\<close> on the stack has been used again by then.
\<close>

definition ip4 :: "8 word \<Rightarrow> IP46Address" where
  "ip4 n = \<lparr>af = 2, addr = [10, 0, 0, n]\<rparr>"

definition target_at :: "8 word \<Rightarrow> AddrInfo" where
  "target_at n = \<lparr>address = ip4 n, port = 8080, transport = IPPROTO_TCP\<rparr>"

definition example_print :: "IP46Address \<Rightarrow> string" where
  "example_print a =
     (if a = ip4 1 then ''10.0.0.1'' else if a = ip4 2 then ''10.0.0.2''
      else if a = ip4 3 then ''10.0.0.3'' else ''10.0.0.0'')"

definition example_parse :: "string \<Rightarrow> IP46Address" where
  "example_parse s =
     (if s = ''10.0.0.1'' then ip4 1 else if s = ''10.0.0.2'' then ip4 2
      else if s = ''10.0.0.3'' then ip4 3 else \<lparr>af = 0, addr = []\<rparr>)"

definition reply :: "CURLcode \<Rightarrow> int \<Rightarrow> string list \<Rightarrow> string list \<Rightarrow> transport_result" where
  "reply code status lines blocks =
     \<lparr>rc = code, response_code = status, header_lines = lines, body_blocks = blocks\<rparr>"

definition scripted :: "transport_result list \<Rightarrow> nat \<Rightarrow> AddrInfo \<Rightarrow> bool \<Rightarrow> transport_result" where
  "scripted rs n t fresh = (if n < length rs then rs ! n else reply CURLE_COULDNT_CONNECT 0 [] [])"

definition example_env ::
  "int \<Rightarrow> string option \<Rightarrow> AddrInfo list \<Rightarrow> transport_result list \<Rightarrow> environment" where
  "example_env secs peer targets rs =
     \<lparr>private_rc = CURLE_OK, clock_rv = 0, tv_sec = secs, tv_nsec = 0, rand_sample = 60000,
      resolve = (\<lambda>host port max_targets. targets), primary_ip = peer,
      parse_ip_target = example_parse, inet_ntop = example_print,
      buf_after_loop = (\<lambda>ip. ip),
      curl_easy_perform = scripted rs\<rparr>"

definition example_conn :: HttpConnection where
  "example_conn = \<lparr>server_host = ''hs.example'', server_port = 8080, load_monitor = True,
                    comm_monitor = True, stat_table = Some Map.empty, lock_count = 0\<rparr>"

definition fresh_state :: call_state where
  "fresh_state = \<lparr>conn = example_conn, entry = new_PoolEntry, doc = [], headers = Map.empty\<rparr>"

definition warm_state :: call_state where
  "warm_state = \<lparr>conn = example_conn\<lparr>stat_table := Some [''10.0.0.2'' \<mapsto> 1]\<rparr>,
                  entry = \<lparr>deadline_ms = 160000, remote_ip = ''10.0.0.2''\<rparr>,
                  doc = [], headers = Map.empty\<rparr>"

definition call_no_targets :: environment where
  "call_no_targets = example_env 100 None [] []"

definition no_targets_result :: call_result where
  "no_targets_result =
     \<lparr>http_code = 404,
      after = fresh_state,
      attempts = [], blacklisted = [], incr_penalties = 0, aborts = [],
      comm_events = [inform_failure 100000]\<rparr>"

definition call_not_built_in :: environment where
  "call_not_built_in =
     example_env 100 None [target_at 1]
       [reply CURLE_NOT_BUILT_IN 0 [] [], reply CURLE_NOT_BUILT_IN 0 [] []]"

definition not_built_in_result :: call_result where
  "not_built_in_result =
     \<lparr>http_code = 400,
      after = fresh_state,
      attempts = [\<lparr>target = target_at 1, fresh_connect = True, outcome = reply CURLE_NOT_BUILT_IN 0 [] []\<rparr>,
                  \<lparr>target = target_at 1, fresh_connect = True, outcome = reply CURLE_NOT_BUILT_IN 0 [] []\<rparr>],
      blacklisted = [target_at 1, target_at 1], incr_penalties = 0, aborts = [],
      comm_events = [inform_failure 100000]\<rparr>"

definition call_connect_fails :: environment where
  "call_connect_fails =
     example_env 100 None [target_at 1, target_at 2]
       [reply CURLE_COULDNT_CONNECT 0 [] [], reply CURLE_COULDNT_CONNECT 0 [] []]"

definition connect_fails_result :: call_result where
  "connect_fails_result =
     \<lparr>http_code = 404,
      after = fresh_state,
      attempts = [\<lparr>target = target_at 1, fresh_connect = True, outcome = reply CURLE_COULDNT_CONNECT 0 [] []\<rparr>,
                  \<lparr>target = target_at 2, fresh_connect = True, outcome = reply CURLE_COULDNT_CONNECT 0 [] []\<rparr>],
      blacklisted = [target_at 1, target_at 2], incr_penalties = 0, aborts = [],
      comm_events = [inform_failure 100000]\<rparr>"

definition call_double_503 :: environment where
  "call_double_503 =
     example_env 100 None [target_at 1, target_at 2]
       [reply CURLE_OK 503 [] [''busy''], reply CURLE_OK 503 [] [''busy'']]"

definition double_503_result :: call_result where
  "double_503_result =
     \<lparr>http_code = 503,
      after = \<lparr>conn = example_conn\<lparr>stat_table := Some [''10.0.0.2'' \<mapsto> 1], lock_count := 1\<rparr>,
               entry = \<lparr>deadline_ms = 0, remote_ip = ''10.0.0.2''\<rparr>,
               doc = ''busy'', headers = Map.empty\<rparr>,
      attempts = [\<lparr>target = target_at 1, fresh_connect = True, outcome = reply CURLE_OK 503 [] [''busy'']\<rparr>,
                  \<lparr>target = target_at 2, fresh_connect = True, outcome = reply CURLE_OK 503 [] [''busy'']\<rparr>],
      blacklisted = [], incr_penalties = 1, aborts = [Temporary],
      comm_events = [inform_failure 100000]\<rparr>"
definition call_single_ok :: environment where
  "call_single_ok = example_env 100 None [target_at 1] [reply CURLE_OK 200 [] [''ok'']]"

definition single_ok_result :: call_result where
  "single_ok_result =
     \<lparr>http_code = 200,
      after = \<lparr>conn = example_conn\<lparr>stat_table := Some [''10.0.0.1'' \<mapsto> 1], lock_count := 1\<rparr>,
               entry = \<lparr>deadline_ms = 160000, remote_ip = ''10.0.0.1''\<rparr>,
               doc = ''ok'', headers = Map.empty\<rparr>,
      attempts = [\<lparr>target = target_at 1, fresh_connect = True, outcome = reply CURLE_OK 200 [] [''ok'']\<rparr>],
      blacklisted = [], incr_penalties = 0, aborts = [],
      comm_events = [inform_success 100000]\<rparr>"

definition call_single_retry :: environment where
  "call_single_retry =
     example_env 100 None [target_at 1] [reply CURLE_OK 503 [] [''busy''], reply CURLE_OK 200 [] [''ok'']]"

definition single_retry_result :: call_result where
  "single_retry_result =
     \<lparr>http_code = 200,
      after = \<lparr>conn = example_conn\<lparr>stat_table := Some [''10.0.0.1'' \<mapsto> 1], lock_count := 1\<rparr>,
               entry = \<lparr>deadline_ms = 160000, remote_ip = ''10.0.0.1''\<rparr>,
               doc = ''ok'', headers = Map.empty\<rparr>,
      attempts = [\<lparr>target = target_at 1, fresh_connect = True, outcome = reply CURLE_OK 503 [] [''busy'']\<rparr>,
                  \<lparr>target = target_at 1, fresh_connect = True, outcome = reply CURLE_OK 200 [] [''ok'']\<rparr>],
      blacklisted = [], incr_penalties = 0, aborts = [],
      comm_events = [inform_success 100000]\<rparr>"

definition call_timeout_then_ok :: environment where
  "call_timeout_then_ok =
     example_env 100 None [target_at 1, target_at 2]
       [reply CURLE_OPERATION_TIMEDOUT 0 [] [], reply CURLE_OK 200 [] [''ok'']]"

definition timeout_then_ok_result :: call_result where
  "timeout_then_ok_result =
     \<lparr>http_code = 200,
      after = \<lparr>conn = example_conn\<lparr>stat_table := Some [''10.0.0.2'' \<mapsto> 1], lock_count := 1\<rparr>,
               entry = \<lparr>deadline_ms = 160000, remote_ip = ''10.0.0.2''\<rparr>,
               doc = ''ok'', headers = Map.empty\<rparr>,
      attempts = [\<lparr>target = target_at 1, fresh_connect = True,
                    outcome = reply CURLE_OPERATION_TIMEDOUT 0 [] []\<rparr>,
                  \<lparr>target = target_at 2, fresh_connect = True, outcome = reply CURLE_OK 200 [] [''ok'']\<rparr>],
      blacklisted = [target_at 1], incr_penalties = 0, aborts = [],
      comm_events = [inform_success 100000]\<rparr>"

definition call_connect_then_ok :: environment where
  "call_connect_then_ok =
     example_env 100 None [target_at 1, target_at 2]
       [reply CURLE_COULDNT_CONNECT 0 [] [], reply CURLE_OK 200 [] [''ok'']]"

definition connect_then_ok_result :: call_result where
  "connect_then_ok_result =
     \<lparr>http_code = 200,
      after = \<lparr>conn = example_conn\<lparr>stat_table := Some [''10.0.0.2'' \<mapsto> 1], lock_count := 1\<rparr>,
               entry = \<lparr>deadline_ms = 160000, remote_ip = ''10.0.0.2''\<rparr>,
               doc = ''ok'', headers = Map.empty\<rparr>,
      attempts = [\<lparr>target = target_at 1, fresh_connect = True,
                    outcome = reply CURLE_COULDNT_CONNECT 0 [] []\<rparr>,
                  \<lparr>target = target_at 2, fresh_connect = True, outcome = reply CURLE_OK 200 [] [''ok'']\<rparr>],
      blacklisted = [target_at 1], incr_penalties = 0, aborts = [],
      comm_events = [inform_success 100000]\<rparr>"

definition call_failover :: environment where
  "call_failover =
     example_env 100 None [target_at 1, target_at 2]
       [reply CURLE_OK 503 [] [''busy''], reply CURLE_OK 200 [] [''ok'']]"

definition failover_result :: call_result where
  "failover_result =
     \<lparr>http_code = 200,
      after = \<lparr>conn = example_conn\<lparr>stat_table := Some [''10.0.0.2'' \<mapsto> 1], lock_count := 1\<rparr>,
               entry = \<lparr>deadline_ms = 160000, remote_ip = ''10.0.0.2''\<rparr>,
               doc = ''ok'', headers = Map.empty\<rparr>,
      attempts = [\<lparr>target = target_at 1, fresh_connect = True, outcome = reply CURLE_OK 503 [] [''busy'']\<rparr>,
                  \<lparr>target = target_at 2, fresh_connect = True, outcome = reply CURLE_OK 200 [] [''ok'']\<rparr>],
      blacklisted = [], incr_penalties = 0, aborts = [],
      comm_events = [inform_success 100000]\<rparr>"




definition stack_bytes :: string where
  "stack_bytes = [CHR 0x60, CHR 0xE2, CHR 0xFF, CHR 0xFF, CHR 0xFF, CHR 0x7F]"

definition call_buf_reused :: environment where
  "call_buf_reused = call_single_ok\<lparr>buf_after_loop := (\<lambda>ip. stack_bytes)\<rparr>"

definition buf_reused_result :: call_result where
  "buf_reused_result =
     \<lparr>http_code = 200,
      after = \<lparr>conn = example_conn\<lparr>stat_table := Some [stack_bytes \<mapsto> 1], lock_count := 1\<rparr>,
               entry = \<lparr>deadline_ms = 160000, remote_ip = stack_bytes\<rparr>,
               doc = ''ok'', headers = Map.empty\<rparr>,
      attempts = [\<lparr>target = target_at 1, fresh_connect = True, outcome = reply CURLE_OK 200 [] [''ok'']\<rparr>],
      blacklisted = [], incr_penalties = 0, aborts = [],
      comm_events = [inform_success 100000]\<rparr>"

definition crlf :: string where
  "crlf = [CHR 0x0D, CHR 0x0A]"

definition busy_lines :: "string list" where
  "busy_lines = [''HTTP/1.1 503'' @ crlf, ''Retry-After: 5'' @ crlf, ''X-Node: a'' @ crlf, crlf]"

definition ok_lines :: "string list" where
  "ok_lines = [''HTTP/1.1 200 OK'' @ crlf, ''X-Node: b'' @ crlf, crlf]"

definition call_put :: environment where
  "call_put =
     example_env 100 None [target_at 1, target_at 2]
       [reply CURLE_OK 503 busy_lines [''bu'', ''sy''], reply CURLE_OK 200 ok_lines [''ok'']]"

definition put_result :: call_result where
  "put_result =
     \<lparr>http_code = 200,
      after = \<lparr>conn = example_conn\<lparr>stat_table := Some [''10.0.0.2'' \<mapsto> 1], lock_count := 1\<rparr>,
               entry = \<lparr>deadline_ms = 160000, remote_ip = ''10.0.0.2''\<rparr>,
               doc = ''ok'',
               headers = [''http/1.1503'' \<mapsto> [], ''retry-after'' \<mapsto> ''5'', ''x-node'' \<mapsto> ''a'',
                          [] \<mapsto> [], ''http/1.1200ok'' \<mapsto> [], ''x-node'' \<mapsto> ''b'',
                          [] \<mapsto> []]\<rparr>,
      attempts = [\<lparr>target = target_at 1, fresh_connect = True,
                    outcome = reply CURLE_OK 503 busy_lines [''bu'', ''sy'']\<rparr>,
                  \<lparr>target = target_at 2, fresh_connect = True,
                    outcome = reply CURLE_OK 200 ok_lines [''ok'']\<rparr>],
      blacklisted = [], incr_penalties = 0, aborts = [],
      comm_events = [inform_success 100000]\<rparr>"

section \<open>Properties\<close>

subsection \<open>Unfolding the model on an example\<close>

lemmas example_defs =
  ip4_def target_at_def example_print_def example_parse_def reply_def scripted_def example_env_def
  example_conn_def fresh_state_def warm_state_def

lemmas model_defs =
  send_request_def send_put_def send_post_def send_get_def send_delete_def
  call_targets_def current_first_def current_target_def clone_single_def
  now_ms_of_def is_connection_expired_def new_PoolEntry_def initial_loop_state_def attempt_target_def
  count_failure_def Let_def finish_request_def set_remote_ip_def update_snmp_ip_counts_def
  get_increment_def get_decrement_def row_count_def remove_row_def update_deadline_def string_store_def
  MAX_TARGETS_def IPPROTO_TCP_def HTTP_NOT_FOUND_def HTTP_BAD_REQUEST_def HTTP_SERVER_ERROR_def

lemmas class_defs =
  attempt_ok_def http_503_def http_504_def fatal_http_def not_found_or_denied_def timeout_or_io_def
  connect_failure_def fatal_def count_of_def budget_spent_def stop_rule_def stopped_def

subsection \<open>One turn of the loop\<close>

lemma made_simps:
  "target (made w recycle_conn n i) = i"
  "fresh_connect (made w recycle_conn n i) = recycle_conn"
  "outcome (made w recycle_conn n i) = curl_easy_perform w n i recycle_conn"
  by (simp_all add: made_def)

lemma fold_string_store: "fold string_store bs acc = acc @ concat bs"
  by (induction bs arbitrary: acc) (simp_all add: string_store_def)

lemma count_of_snoc: "count_of P (as @ [a]) = count_of P as + (if P a then 1 else 0)"
  by (simp add: count_of_def)

lemma count_failure_counters:
  assumes "count_failure (rc (outcome a)) (if rc (outcome a) = CURLE_OK then response_code (outcome a) else 0) s = (f, s')"
  shows "f = fatal a"
    and "num_http_503_responses s' = num_http_503_responses s + (if http_503 a then 1 else 0)"
    and "num_http_504_responses s' = num_http_504_responses s + (if http_504 a then 1 else 0)"
    and "num_timeouts_or_io_errors s' = num_timeouts_or_io_errors s + (if timeout_or_io a then 1 else 0)"
    and "l_entry s' = l_entry s" and "l_doc s' = l_doc s" and "l_headers s' = l_headers s"
    and "l_rc s' = l_rc s" and "l_response_code s' = l_response_code s" and "l_remote_ip s' = l_remote_ip s"
    and "performed s' = performed s" and "blacklist_calls s' = blacklist_calls s"
    and "abort_events s' = abort_events s"
  using assms
  by (auto simp: count_failure_def fatal_def fatal_http_def http_503_def http_504_def
        not_found_or_denied_def timeout_or_io_def split: if_splits)

lemma attempt_target_step:
  assumes "attempt_target w hdr recycle_conn now_ms n i s = (cont, s')"
  shows "performed s' = performed s @ [made w recycle_conn n i] \<and>
     l_rc s' = rc (outcome (made w recycle_conn n i)) \<and>
     l_response_code s' = response_code (outcome (made w recycle_conn n i)) \<and>
     l_remote_ip s' = Some (inet_ntop w (address i)) \<and>
     l_doc s' = concat (body_blocks (outcome (made w recycle_conn n i))) \<and>
     l_headers s' = (if hdr then fold write_headers (header_lines (outcome (made w recycle_conn n i))) (l_headers s)
                         else l_headers s) \<and>
     num_http_503_responses s' = num_http_503_responses s + (if http_503 (made w recycle_conn n i) then 1 else 0) \<and>
     num_http_504_responses s' = num_http_504_responses s + (if http_504 (made w recycle_conn n i) then 1 else 0) \<and>
     num_timeouts_or_io_errors s' =
           num_timeouts_or_io_errors s + (if timeout_or_io (made w recycle_conn n i) then 1 else 0) \<and>
     blacklist_calls s' = blacklist_calls s @
           (if recycle_conn \<and> rc (outcome (made w recycle_conn n i)) \<noteq> CURLE_OK \<and>
               \<not> not_found_or_denied (made w recycle_conn n i) then [i] else []) \<and>
     cont = (\<not> attempt_ok (made w recycle_conn n i) \<and> \<not> fatal (made w recycle_conn n i) \<and>
                 \<not> (num_http_503_responses s' + num_timeouts_or_io_errors s' \<ge> 2 \<or>
                    num_http_504_responses s' \<ge> 1)) \<and>
     abort_events s' = abort_events s @
           (if \<not> attempt_ok (made w recycle_conn n i) \<and>
               (fatal (made w recycle_conn n i) \<or>
                num_http_503_responses s' + num_timeouts_or_io_errors s' \<ge> 2 \<or>
                num_http_504_responses s' \<ge> 1)
            then [if fatal (made w recycle_conn n i) then Permanent else Temporary] else []) \<and>
     l_entry s' = (if attempt_ok (made w recycle_conn n i) \<and> recycle_conn
                       then update_deadline now_ms (rand_sample w) (l_entry s) else l_entry s)"
proof (cases "attempt_ok (made w recycle_conn n i)")
  case True
  with assms show ?thesis
    by (auto simp: attempt_target_def Let_def made_def attempt_ok_def http_503_def http_504_def
          timeout_or_io_def fold_string_store not_found_or_denied_def fatal_def fatal_http_def split: if_splits)
next
  case False
  let ?a = "made w recycle_conn n i"
  let ?res = "curl_easy_perform w n i recycle_conn"
  let ?http_rc = "if rc ?res = CURLE_OK then response_code ?res else 0"
  let ?s1 = "s\<lparr>l_remote_ip := Some (inet_ntop w (address i)),
                 l_doc := fold string_store (body_blocks ?res) [],
                 l_headers := (if hdr then fold write_headers (header_lines ?res) (l_headers s)
                               else l_headers s),
                 l_rc := rc ?res,
                 l_response_code := response_code ?res,
                 performed := performed s @ [\<lparr>target = i, fresh_connect = recycle_conn, outcome = ?res\<rparr>]\<rparr>"
  let ?s2 = "if recycle_conn \<and> \<not> (?http_rc \<ge> 400) \<and>
                         rc ?res \<noteq> CURLE_REMOTE_FILE_NOT_FOUND \<and>
                         rc ?res \<noteq> CURLE_REMOTE_ACCESS_DENIED
                      then ?s1\<lparr>blacklist_calls := blacklist_calls ?s1 @ [i]\<rparr>
                      else ?s1"
  obtain f s3 where cf: "count_failure (rc ?res) ?http_rc ?s2 = (f, s3)"
    by (cases "count_failure (rc ?res) ?http_rc ?s2") blast
  have res: "outcome ?a = ?res" by (simp add: made_def)
  note c = count_failure_counters [of ?a ?s2 f s3, unfolded res, OF cf]
  have notok: "\<not> (rc ?res = CURLE_OK \<and> \<not> (?http_rc \<ge> 400))"
    using False by (auto simp: attempt_ok_def made_def)
  have s': "s' = (if num_http_503_responses s3 + num_timeouts_or_io_errors s3 \<ge> 2 \<or>
                  num_http_504_responses s3 \<ge> 1 \<or> f
               then s3\<lparr>abort_events := abort_events s3 @ [if f then Permanent else Temporary]\<rparr>
               else s3)"
   and cont: "cont = (\<not> (num_http_503_responses s3 + num_timeouts_or_io_errors s3 \<ge> 2 \<or>
                  num_http_504_responses s3 \<ge> 1 \<or> f))"
    using assms notok cf unfolding attempt_target_def Let_def
    by (auto split: if_splits)
  have bl: "(recycle_conn \<and> \<not> (?http_rc \<ge> 400) \<and>
                         rc ?res \<noteq> CURLE_REMOTE_FILE_NOT_FOUND \<and>
                         rc ?res \<noteq> CURLE_REMOTE_ACCESS_DENIED) =
            (recycle_conn \<and> rc ?res \<noteq> CURLE_OK \<and> \<not> not_found_or_denied ?a)"
    using notok by (auto simp: not_found_or_denied_def made_def)
  have s2: "l_entry ?s2 = l_entry s"
    "l_doc ?s2 = concat (body_blocks ?res)"
    "l_headers ?s2 = (if hdr then fold write_headers (header_lines ?res) (l_headers s) else l_headers s)"
    "l_rc ?s2 = rc ?res"
    "l_response_code ?s2 = response_code ?res"
    "l_remote_ip ?s2 = Some (inet_ntop w (address i))"
    "num_http_503_responses ?s2 = num_http_503_responses s"
    "num_http_504_responses ?s2 = num_http_504_responses s"
    "num_timeouts_or_io_errors ?s2 = num_timeouts_or_io_errors s"
    "performed ?s2 = performed s @ [?a]"
    "abort_events ?s2 = abort_events s"
    "blacklist_calls ?s2 = blacklist_calls s @
       (if recycle_conn \<and> rc ?res \<noteq> CURLE_OK \<and> \<not> not_found_or_denied ?a then [i] else [])"
    unfolding bl by (simp_all add: fold_string_store made_def)
  show ?thesis
    using False unfolding s' cont
    by (simp add: c s2 made_simps)
qed

subsection \<open>The invariant of the loop\<close>

lemma tracks_initial: "tracks w hdr recycle_conn st (initial_loop_state st)"
  by (simp add: tracks_def initial_loop_state_def count_of_def)

lemma going_initial: "going st (initial_loop_state st)"
  by (simp add: going_def initial_loop_state_def)

lemma tracks_step:
  assumes t: "tracks w hdr recycle_conn st s"
    and a: "attempt_target w hdr recycle_conn now_ms n i s = (cont, s')"
  shows "tracks w hdr recycle_conn st s'"
  using t unfolding tracks_def
  by (simp add: attempt_target_step [OF a] count_of_snoc made_simps blacklist_due_def)

lemma budget_tracked:
  "tracks w hdr recycle_conn st s \<Longrightarrow>
   (num_http_503_responses s + num_timeouts_or_io_errors s \<ge> 2 \<or> num_http_504_responses s \<ge> 1) =
   budget_spent (performed s)"
  by (simp add: tracks_def budget_spent_def)

lemma continues_iff:
  assumes t: "tracks w hdr recycle_conn st s"
    and a: "attempt_target w hdr recycle_conn now_ms n i s = (cont, s')"
  shows "cont = (\<not> stopped (performed s'))"
proof -
  have t': "tracks w hdr recycle_conn st s'" by (rule tracks_step [OF t a])
  have p: "performed s' = performed s @ [made w recycle_conn n i]"
    using attempt_target_step [OF a] by simp
  have "cont = (\<not> attempt_ok (made w recycle_conn n i) \<and> \<not> fatal (made w recycle_conn n i) \<and>
                 \<not> budget_spent (performed s'))"
    using attempt_target_step [OF a] budget_tracked [OF t'] by simp
  then show ?thesis by (auto simp: stopped_def stop_rule_def p)
qed

lemma aborts_step:
  assumes t: "tracks w hdr recycle_conn st s"
    and a: "attempt_target w hdr recycle_conn now_ms n i s = (cont, s')"
  shows "abort_events s' = abort_events s @
           (if \<not> attempt_ok (last (performed s')) \<and> stop_rule (performed s')
            then [if fatal (last (performed s')) then Permanent else Temporary] else [])"
proof -
  have t': "tracks w hdr recycle_conn st s'" by (rule tracks_step [OF t a])
  have p: "performed s' = performed s @ [made w recycle_conn n i]"
    using attempt_target_step [OF a] by simp
  have "abort_events s' = abort_events s @
           (if \<not> attempt_ok (made w recycle_conn n i) \<and>
               (fatal (made w recycle_conn n i) \<or> budget_spent (performed s'))
            then [if fatal (made w recycle_conn n i) then Permanent else Temporary] else [])"
    using attempt_target_step [OF a] budget_tracked [OF t'] by simp
  then show ?thesis by (simp add: stop_rule_def p)
qed

lemma performs_simps:
  "performs w recycle_conn n [] = []"
  "performs w recycle_conn n (i # targets) = made w recycle_conn n i # performs w recycle_conn (Suc n) targets"
  by (simp_all add: performs_def)

lemma attempt_loop_tracks:
  "tracks w hdr recycle_conn st s \<Longrightarrow>
   tracks w hdr recycle_conn st (attempt_loop w hdr recycle_conn now_ms n targets s)"
proof (induction targets arbitrary: n s)
  case Nil
  then show ?case by simp
next
  case (Cons i targets)
  obtain cont s' where a: "attempt_target w hdr recycle_conn now_ms n i s = (cont, s')"
    by (cases "attempt_target w hdr recycle_conn now_ms n i s") blast
  have t': "tracks w hdr recycle_conn st s'" by (rule tracks_step [OF Cons.prems a])
  show ?case
  proof (cases cont)
    case True
    then show ?thesis using a Cons.IH [OF t'] by simp
  next
    case False
    then show ?thesis using a t' by simp
  qed
qed

lemma attempt_loop_post:
  assumes "tracks w hdr recycle_conn st s" and "going st s"
  shows "\<exists>k \<le> length targets.
     performed (attempt_loop w hdr recycle_conn now_ms n targets s) =
       performed s @ performs w recycle_conn n (take k targets) \<and>
     (targets \<noteq> [] \<longrightarrow> 0 < k) \<and>
     (k < length targets \<longrightarrow> stopped (performed (attempt_loop w hdr recycle_conn now_ms n targets s)))"
    (is "?P1 n targets s")
  and "\<forall>k. 0 < k \<and> k < length (performed (attempt_loop w hdr recycle_conn now_ms n targets s)) \<longrightarrow>
         \<not> stopped (take k (performed (attempt_loop w hdr recycle_conn now_ms n targets s)))"
    (is "?P2 n targets s")
  and "abort_events (attempt_loop w hdr recycle_conn now_ms n targets s) =
         (let as = performed (attempt_loop w hdr recycle_conn now_ms n targets s)
          in if as \<noteq> [] \<and> \<not> attempt_ok (last as) \<and> stop_rule as
             then [if fatal (last as) then Permanent else Temporary] else [])"
    (is "?P3 n targets s")
  and "l_entry (attempt_loop w hdr recycle_conn now_ms n targets s) =
         (let as = performed (attempt_loop w hdr recycle_conn now_ms n targets s)
          in if as \<noteq> [] \<and> attempt_ok (last as) \<and> recycle_conn
             then update_deadline now_ms (rand_sample w) (entry st) else entry st)"
    (is "?P4 n targets s")
proof -
  have "?P1 n targets s \<and> ?P2 n targets s \<and> ?P3 n targets s \<and> ?P4 n targets s"
    using assms
  proof (induction targets arbitrary: n s)
    case Nil
    from Nil.prems(2) have g: "abort_events s = []" "l_entry s = entry st"
      "performed s \<noteq> [] \<Longrightarrow> \<not> stopped (performed s)"
      and kg: "\<And>k. 0 < k \<Longrightarrow> k \<le> length (performed s) \<Longrightarrow> \<not> stopped (take k (performed s))"
      by (auto simp: going_def)
    have "?P1 n [] s" by (simp add: performs_simps)
    moreover have "?P2 n [] s" using kg by simp
    moreover have "?P3 n [] s" using g by (auto simp: Let_def stopped_def)
    moreover have "?P4 n [] s" using g by (auto simp: Let_def stopped_def)
    ultimately show ?case by blast
  next
    case (Cons i targets)
    obtain cont s' where a: "attempt_target w hdr recycle_conn now_ms n i s = (cont, s')"
      by (cases "attempt_target w hdr recycle_conn now_ms n i s") blast
    have t': "tracks w hdr recycle_conn st s'" by (rule tracks_step [OF Cons.prems(1) a])
    have p: "performed s' = performed s @ [made w recycle_conn n i]"
      using attempt_target_step [OF a] by simp
    have c: "cont = (\<not> stopped (performed s'))" by (rule continues_iff [OF Cons.prems(1) a])
    have ab: "abort_events s' = abort_events s @
           (if \<not> attempt_ok (last (performed s')) \<and> stop_rule (performed s')
            then [if fatal (last (performed s')) then Permanent else Temporary] else [])"
      by (rule aborts_step [OF Cons.prems(1) a])
    have en: "l_entry s' = (if attempt_ok (last (performed s')) \<and> recycle_conn
                       then update_deadline now_ms (rand_sample w) (l_entry s) else l_entry s)"
      using attempt_target_step [OF a] by (simp add: p)
    from Cons.prems(2) have g: "abort_events s = []" "l_entry s = entry st"
      and kg: "\<And>k. 0 < k \<Longrightarrow> k \<le> length (performed s) \<Longrightarrow> \<not> stopped (take k (performed s))"
      by (auto simp: going_def)
    have kg': "\<And>k. 0 < k \<Longrightarrow> k < length (performed s') \<Longrightarrow> \<not> stopped (take k (performed s'))"
      using kg by (simp add: p)
    show ?case
    proof (cases cont)
      case True
      then have ns: "\<not> stopped (performed s')" using c by simp
      have g': "going st s'"
        unfolding going_def
      proof (intro conjI allI impI)
        show "abort_events s' = []" using ab g ns by (auto simp: stopped_def p)
        show "l_entry s' = entry st" using en g ns by (auto simp: stopped_def p)
        fix k assume k: "0 < k \<and> k \<le> length (performed s')"
        show "\<not> stopped (take k (performed s'))"
        proof (cases "k = length (performed s')")
          case True
          then show ?thesis using ns by simp
        next
          case False
          then show ?thesis using kg' k by simp
        qed
      qed
      have L: "attempt_loop w hdr recycle_conn now_ms n (i # targets) s =
               attempt_loop w hdr recycle_conn now_ms (Suc n) targets s'"
        using a True by simp
      from Cons.IH [OF t' g', of "Suc n"]
      have ih1: "?P1 (Suc n) targets s'" and ih2: "?P2 (Suc n) targets s'"
        and ih3: "?P3 (Suc n) targets s'" and ih4: "?P4 (Suc n) targets s'"
        by blast+
      from ih1 obtain k where k: "k \<le> length targets"
        "performed (attempt_loop w hdr recycle_conn now_ms (Suc n) targets s') =
           performed s' @ performs w recycle_conn (Suc n) (take k targets)"
        "k < length targets \<longrightarrow> stopped (performed (attempt_loop w hdr recycle_conn now_ms (Suc n) targets s'))"
        by blast
      have "?P1 n (i # targets) s"
        unfolding L
        by (rule exI [of _ "Suc k"]) (use k in \<open>simp add: p performs_simps\<close>)
      then show ?thesis using ih2 ih3 ih4 unfolding L by blast
    next
      case False
      then have st: "stopped (performed s')" using c by simp
      have L: "attempt_loop w hdr recycle_conn now_ms n (i # targets) s = s'"
        using a False by simp
      have "?P1 n (i # targets) s"
        unfolding L
        by (rule exI [of _ "Suc 0"]) (use st in \<open>simp add: p performs_simps\<close>)
      moreover have "?P2 n (i # targets) s" unfolding L using kg' by blast
      moreover have "?P3 n (i # targets) s" unfolding L using ab g st by (auto simp: Let_def stopped_def p)
      moreover have "?P4 n (i # targets) s" unfolding L using en g by (auto simp: Let_def p)
      ultimately show ?thesis by blast
    qed
  qed
  then show "?P1 n targets s" and "?P2 n targets s" and "?P3 n targets s" and "?P4 n targets s"
    by blast+
qed

subsection \<open>After the loop\<close>

lemma set_remote_ip_entry: "snd (set_remote_ip v (p, e)) = e\<lparr>remote_ip := v\<rparr>"
  by (simp add: set_remote_ip_def Let_def split: option.splits prod.splits)

lemma finish_request_Inr:
  assumes "finish_request w c now_ms s = Inr r"
  shows "attempts r = performed s"
    and "blacklisted r = blacklist_calls s"
    and "aborts r = abort_events s"
    and "http_code r = curl_code_to_http_code (l_response_code s) (l_rc s)"
    and "incr_penalties r =
           (if (num_http_503_responses s \<ge> 2 \<or> num_http_504_responses s \<ge> 1) \<and> load_monitor c
            then 1 else 0)"
    and "doc (after r) = l_doc s"
    and "headers (after r) = l_headers s"
    and "entry (after r) =
           (l_entry s)\<lparr>remote_ip :=
             (if l_rc s = CURLE_OK then buf_after_loop w (the (l_remote_ip s)) else [])\<rparr>"
proof -
  have e: "\<And>v c' e'. set_remote_ip v (c, l_entry s) = (c', e') \<Longrightarrow> e' = (l_entry s)\<lparr>remote_ip := v\<rparr>"
    using set_remote_ip_entry [of _ c "l_entry s"] by (metis snd_conv)
  show "attempts r = performed s"
    and "blacklisted r = blacklist_calls s"
    and "aborts r = abort_events s"
    and "http_code r = curl_code_to_http_code (l_response_code s) (l_rc s)"
    and "incr_penalties r =
           (if (num_http_503_responses s \<ge> 2 \<or> num_http_504_responses s \<ge> 1) \<and> load_monitor c
            then 1 else 0)"
    and "doc (after r) = l_doc s"
    and "headers (after r) = l_headers s"
    and "entry (after r) =
           (l_entry s)\<lparr>remote_ip :=
             (if l_rc s = CURLE_OK then buf_after_loop w (the (l_remote_ip s)) else [])\<rparr>"
    using assms
    by (auto simp: finish_request_def Let_def split: if_splits option.splits prod.splits dest!: e)
qed

lemma finish_request_returns:
  assumes "l_rc s = CURLE_OK \<longrightarrow> l_remote_ip s \<noteq> None"
  shows "\<exists>r. finish_request w c now_ms s = Inr r"
  using assms
  by (auto simp: finish_request_def Let_def split: if_splits option.splits prod.splits)

lemma send_request_Inr:
  assumes "send_request w hdr st = Inr r"
  shows "finish_request w (conn st) (now_ms_of w) (loop_of w hdr st) = Inr r"
  using assms by (simp add: send_request_def loop_of_def Let_def split: if_splits)

lemma loop_of_tracks:
  "tracks w hdr (is_connection_expired (now_ms_of w) (entry st)) st (loop_of w hdr st)"
  unfolding loop_of_def by (rule attempt_loop_tracks [OF tracks_initial])

lemma send_request_returns:
  assumes "private_rc w = CURLE_OK" and "clock_rv w = 0"
  shows "\<exists>r. send_request w hdr st = Inr r"
proof -
  have "l_rc (loop_of w hdr st) = CURLE_OK \<longrightarrow> l_remote_ip (loop_of w hdr st) \<noteq> None"
    using loop_of_tracks [of w hdr st] by (auto simp: tracks_def split: if_splits)
  from finish_request_returns [OF this] show ?thesis
    using assms by (simp add: send_request_def loop_of_def Let_def)
qed

subsection \<open>A whole call\<close>

lemma call_tracks:
  assumes "send_request w hdr st = Inr r"
  shows "count_of http_503 (attempts r) = num_http_503_responses (loop_of w hdr st)"
    and "count_of http_504 (attempts r) = num_http_504_responses (loop_of w hdr st)"
    and "blacklisted r = map target (filter blacklist_due (attempts r))"
    and "\<forall>a \<in> set (attempts r). fresh_connect a = is_connection_expired (now_ms_of w) (entry st)"
    and "headers (after r) =
           (if hdr then fold write_headers (concat (map (\<lambda>a. header_lines (outcome a)) (attempts r))) (headers st)
            else headers st)"
    and "doc (after r) =
           (if attempts r = [] then doc st else concat (body_blocks (outcome (last (attempts r)))))"
    and "l_rc (loop_of w hdr st) =
           (if attempts r = [] then CURLE_COULDNT_RESOLVE_HOST else rc (outcome (last (attempts r))))"
    and "attempts r \<noteq> [] \<Longrightarrow> l_response_code (loop_of w hdr st) = response_code (outcome (last (attempts r)))"
    and "attempts r \<noteq> [] \<Longrightarrow>
           l_remote_ip (loop_of w hdr st) = Some (inet_ntop w (address (target (last (attempts r)))))"
proof -
  note f = finish_request_Inr [OF send_request_Inr [OF assms]]
  have t: "tracks w hdr (is_connection_expired (now_ms_of w) (entry st)) st (loop_of w hdr st)"
    by (rule loop_of_tracks)
  show "count_of http_503 (attempts r) = num_http_503_responses (loop_of w hdr st)"
    and "count_of http_504 (attempts r) = num_http_504_responses (loop_of w hdr st)"
    and "blacklisted r = map target (filter blacklist_due (attempts r))"
    and "\<forall>a \<in> set (attempts r). fresh_connect a = is_connection_expired (now_ms_of w) (entry st)"
    and "headers (after r) =
           (if hdr then fold write_headers (concat (map (\<lambda>a. header_lines (outcome a)) (attempts r))) (headers st)
            else headers st)"
    and "doc (after r) =
           (if attempts r = [] then doc st else concat (body_blocks (outcome (last (attempts r)))))"
    and "l_rc (loop_of w hdr st) =
           (if attempts r = [] then CURLE_COULDNT_RESOLVE_HOST else rc (outcome (last (attempts r))))"
    and "attempts r \<noteq> [] \<Longrightarrow> l_response_code (loop_of w hdr st) = response_code (outcome (last (attempts r)))"
    and "attempts r \<noteq> [] \<Longrightarrow>
           l_remote_ip (loop_of w hdr st) = Some (inet_ntop w (address (target (last (attempts r)))))"
    using t unfolding tracks_def f by (simp_all split: if_splits)
qed

lemma call_post:
  assumes "send_request w hdr st = Inr r"
  shows "\<exists>k \<le> length (call_targets (conn st) w (entry st)).
           attempts r = performs w (is_connection_expired (now_ms_of w) (entry st)) 0
                          (take k (call_targets (conn st) w (entry st))) \<and>
           (call_targets (conn st) w (entry st) \<noteq> [] \<longrightarrow> 0 < k) \<and>
           (k < length (call_targets (conn st) w (entry st)) \<longrightarrow> stopped (attempts r))"
    and "\<forall>k. 0 < k \<and> k < length (attempts r) \<longrightarrow> \<not> stopped (take k (attempts r))"
    and "aborts r =
           (if attempts r \<noteq> [] \<and> \<not> attempt_ok (last (attempts r)) \<and> stop_rule (attempts r)
            then [if fatal (last (attempts r)) then Permanent else Temporary] else [])"
    and "deadline_ms (entry (after r)) =
           (if attempts r \<noteq> [] \<and> attempt_ok (last (attempts r)) \<and>
               is_connection_expired (now_ms_of w) (entry st)
            then deadline_ms (update_deadline (now_ms_of w) (rand_sample w) (entry st))
            else deadline_ms (entry st))"
proof -
  note f = finish_request_Inr [OF send_request_Inr [OF assms]]
  note p = attempt_loop_post [OF tracks_initial going_initial,
      where w = w and hdr = hdr and recycle_conn = "is_connection_expired (now_ms_of w) (entry st)"
        and st = st and targets = "call_targets (conn st) w (entry st)" and now_ms = "now_ms_of w"
        and n = 0, folded loop_of_def]
  show "\<exists>k \<le> length (call_targets (conn st) w (entry st)).
           attempts r = performs w (is_connection_expired (now_ms_of w) (entry st)) 0
                          (take k (call_targets (conn st) w (entry st))) \<and>
           (call_targets (conn st) w (entry st) \<noteq> [] \<longrightarrow> 0 < k) \<and>
           (k < length (call_targets (conn st) w (entry st)) \<longrightarrow> stopped (attempts r))"
    using p(1) by (simp add: f initial_loop_state_def)
  show "\<forall>k. 0 < k \<and> k < length (attempts r) \<longrightarrow> \<not> stopped (take k (attempts r))"
    using p(2) by (simp add: f)
  show "aborts r =
           (if attempts r \<noteq> [] \<and> \<not> attempt_ok (last (attempts r)) \<and> stop_rule (attempts r)
            then [if fatal (last (attempts r)) then Permanent else Temporary] else [])"
    using p(3) by (simp add: f Let_def)
  show "deadline_ms (entry (after r)) =
           (if attempts r \<noteq> [] \<and> attempt_ok (last (attempts r)) \<and>
               is_connection_expired (now_ms_of w) (entry st)
            then deadline_ms (update_deadline (now_ms_of w) (rand_sample w) (entry st))
            else deadline_ms (entry st))"
    using p(4) by (simp add: f Let_def)
qed

lemma target_performs: "map target (performs w recycle_conn n targets) = targets"
  by (induction targets arbitrary: n) (simp_all add: performs_simps made_simps)

lemma length_performs: "length (performs w recycle_conn n targets) = length targets"
  by (simp add: performs_def)

lemma call_targets_Nil:
  "resolve w (server_host c) (server_port c) MAX_TARGETS = [] \<Longrightarrow> call_targets c w e = []"
  by (simp add: call_targets_def current_first_def clone_single_def Let_def split: option.splits)

lemma current_first_single:
  "current_first c w recycle_conn [t] = [t]"
  by (simp add: current_first_def Let_def split: option.splits)

lemma call_targets_single:
  "resolve w (server_host c) (server_port c) MAX_TARGETS = [t] \<Longrightarrow> call_targets c w e = [t, t]"
  by (simp add: call_targets_def current_first_single clone_single_def)

lemma current_first_nonempty:
  "targets \<noteq> [] \<Longrightarrow> current_first c w recycle_conn targets \<noteq> []"
  by (auto simp: current_first_def Let_def split: option.splits)

lemma call_targets_nonempty:
  "resolve w (server_host c) (server_port c) MAX_TARGETS \<noteq> [] \<Longrightarrow> call_targets c w e \<noteq> []"
  using current_first_nonempty [of "resolve w (server_host c) (server_port c) MAX_TARGETS" c w
      "is_connection_expired (now_ms_of w) e"]
  by (simp add: call_targets_def clone_single_def)

lemma not_stopped_single:
  "(\<not> stopped [a]) = (http_503 a \<or> timeout_or_io a \<or> connect_failure a)"
  by (auto simp: class_defs)

lemma blacklist_due_classes:
  "blacklist_due = (\<lambda>a. fresh_connect a \<and> (connect_failure a \<or> timeout_or_io a))"
  by (rule ext)
     (auto simp: blacklist_due_def connect_failure_def timeout_or_io_def not_found_or_denied_def)

subsection \<open>The example calls, run\<close>

lemma run_no_targets: "send_request call_no_targets False fresh_state = Inr no_targets_result"
  by (simp add: call_no_targets_def no_targets_result_def model_defs example_defs)

lemma run_not_built_in: "send_request call_not_built_in False fresh_state = Inr not_built_in_result"
  by (simp add: call_not_built_in_def not_built_in_result_def model_defs example_defs)

lemma run_connect_fails: "send_request call_connect_fails False fresh_state = Inr connect_fails_result"
  by (simp add: call_connect_fails_def connect_fails_result_def model_defs example_defs)

lemma run_double_503: "send_request call_double_503 False fresh_state = Inr double_503_result"
  by (simp add: call_double_503_def double_503_result_def model_defs example_defs)

lemma run_single_ok: "send_request call_single_ok False fresh_state = Inr single_ok_result"
  by (simp add: call_single_ok_def single_ok_result_def model_defs example_defs)

lemma run_single_retry: "send_request call_single_retry False fresh_state = Inr single_retry_result"
  by (simp add: call_single_retry_def single_retry_result_def model_defs example_defs)

lemma run_timeout_then_ok:
  "send_request call_timeout_then_ok False fresh_state = Inr timeout_then_ok_result"
  by (simp add: call_timeout_then_ok_def timeout_then_ok_result_def model_defs example_defs)

lemma run_connect_then_ok:
  "send_request call_connect_then_ok False fresh_state = Inr connect_then_ok_result"
  by (simp add: call_connect_then_ok_def connect_then_ok_result_def model_defs example_defs)

lemma run_failover: "send_request call_failover False fresh_state = Inr failover_result"
  by (simp add: call_failover_def failover_result_def model_defs example_defs)

lemma run_buf_reused: "send_request call_buf_reused False fresh_state = Inr buf_reused_result"
  by (simp add: call_buf_reused_def call_single_ok_def buf_reused_result_def stack_bytes_def
        model_defs example_defs)

lemma busy_lines_written:
  "fold write_headers busy_lines m =
     m(''http/1.1503'' \<mapsto> [], ''retry-after'' \<mapsto> ''5'', ''x-node'' \<mapsto> ''a'', [] \<mapsto> [])"
  by (simp add: busy_lines_def crlf_def write_headers_def header_key_def header_val_def
        isspace_def tolower_def)

lemma ok_lines_written:
  "fold write_headers ok_lines m = m(''http/1.1200ok'' \<mapsto> [], ''x-node'' \<mapsto> ''b'', [] \<mapsto> [])"
  by (simp add: ok_lines_def crlf_def write_headers_def header_key_def header_val_def
        isspace_def tolower_def)

lemma run_put: "send_put call_put fresh_state = Inr put_result"
  by (simp add: call_put_def put_result_def model_defs example_defs
        busy_lines_written ok_lines_written)

section \<open>The claims\<close>

text \<open>
  C1 (as amended). A call whose two assertions hold returns: no transport code reaches the
  caller. The code returned is 404 when no attempt was made, and is otherwise fixed by the
  result of the last attempt: the status of the response when the transport succeeded;
  404 for remote-file-not-found, could-not-resolve-proxy, could-not-resolve-host,
  could-not-connect and \<^verbatim>\<open>CURLE_AGAIN\<close>; 400 for URL-malformed and \<^verbatim>\<open>CURLE_NOT_BUILT_IN\<close>;
  500 for every other transport code. When the resolver returns no target, no attempt and
  no blacklist call is made and the code is 404.
\<close>

theorem outcome_code:
  assumes "private_rc w = CURLE_OK" and "clock_rv w = 0"
  shows "\<exists>r. send_request w hdr st = Inr r \<and>
     (attempts r = [] \<longrightarrow> http_code r = 404) \<and>
     (attempts r \<noteq> [] \<longrightarrow>
        (rc (outcome (last (attempts r))) = CURLE_OK \<longrightarrow>
           http_code r = response_code (outcome (last (attempts r)))) \<and>
        (rc (outcome (last (attempts r))) \<in>
           {CURLE_REMOTE_FILE_NOT_FOUND, CURLE_COULDNT_RESOLVE_PROXY, CURLE_COULDNT_RESOLVE_HOST,
            CURLE_COULDNT_CONNECT, CURLE_AGAIN} \<longrightarrow> http_code r = 404) \<and>
        (rc (outcome (last (attempts r))) \<in> {CURLE_URL_MALFORMAT, CURLE_NOT_BUILT_IN} \<longrightarrow>
           http_code r = 400) \<and>
        (rc (outcome (last (attempts r))) \<notin>
           {CURLE_OK, CURLE_REMOTE_FILE_NOT_FOUND, CURLE_COULDNT_RESOLVE_PROXY,
            CURLE_COULDNT_RESOLVE_HOST, CURLE_COULDNT_CONNECT, CURLE_AGAIN,
            CURLE_URL_MALFORMAT, CURLE_NOT_BUILT_IN} \<longrightarrow> http_code r = 500)) \<and>
     (resolve w (server_host (conn st)) (server_port (conn st)) MAX_TARGETS = [] \<longrightarrow>
        attempts r = [] \<and> blacklisted r = [] \<and> http_code r = 404)"
proof -
  from send_request_returns [OF assms] obtain r where r: "send_request w hdr st = Inr r"
    by blast
  note f = finish_request_Inr [OF send_request_Inr [OF r]]
  note t = call_tracks [OF r]
  have code: "http_code r = curl_code_to_http_code (l_response_code (loop_of w hdr st))
                (if attempts r = [] then CURLE_COULDNT_RESOLVE_HOST else rc (outcome (last (attempts r))))"
    using f(4) t(7) by simp
  have none: "attempts r = [] \<longrightarrow> http_code r = 404"
    using code by (simp add: HTTP_NOT_FOUND_def)
  have some: "attempts r \<noteq> [] \<longrightarrow>
        (rc (outcome (last (attempts r))) = CURLE_OK \<longrightarrow>
           http_code r = response_code (outcome (last (attempts r)))) \<and>
        (rc (outcome (last (attempts r))) \<in>
           {CURLE_REMOTE_FILE_NOT_FOUND, CURLE_COULDNT_RESOLVE_PROXY, CURLE_COULDNT_RESOLVE_HOST,
            CURLE_COULDNT_CONNECT, CURLE_AGAIN} \<longrightarrow> http_code r = 404) \<and>
        (rc (outcome (last (attempts r))) \<in> {CURLE_URL_MALFORMAT, CURLE_NOT_BUILT_IN} \<longrightarrow>
           http_code r = 400) \<and>
        (rc (outcome (last (attempts r))) \<notin>
           {CURLE_OK, CURLE_REMOTE_FILE_NOT_FOUND, CURLE_COULDNT_RESOLVE_PROXY,
            CURLE_COULDNT_RESOLVE_HOST, CURLE_COULDNT_CONNECT, CURLE_AGAIN,
            CURLE_URL_MALFORMAT, CURLE_NOT_BUILT_IN} \<longrightarrow> http_code r = 500)"
  proof
    assume ne: "attempts r \<noteq> []"
    then have "http_code r = curl_code_to_http_code (response_code (outcome (last (attempts r))))
                 (rc (outcome (last (attempts r))))"
      using code t(8) by simp
    then show "(rc (outcome (last (attempts r))) = CURLE_OK \<longrightarrow>
           http_code r = response_code (outcome (last (attempts r)))) \<and>
        (rc (outcome (last (attempts r))) \<in>
           {CURLE_REMOTE_FILE_NOT_FOUND, CURLE_COULDNT_RESOLVE_PROXY, CURLE_COULDNT_RESOLVE_HOST,
            CURLE_COULDNT_CONNECT, CURLE_AGAIN} \<longrightarrow> http_code r = 404) \<and>
        (rc (outcome (last (attempts r))) \<in> {CURLE_URL_MALFORMAT, CURLE_NOT_BUILT_IN} \<longrightarrow>
           http_code r = 400) \<and>
        (rc (outcome (last (attempts r))) \<notin>
           {CURLE_OK, CURLE_REMOTE_FILE_NOT_FOUND, CURLE_COULDNT_RESOLVE_PROXY,
            CURLE_COULDNT_RESOLVE_HOST, CURLE_COULDNT_CONNECT, CURLE_AGAIN,
            CURLE_URL_MALFORMAT, CURLE_NOT_BUILT_IN} \<longrightarrow> http_code r = 500)"
      by (cases "rc (outcome (last (attempts r)))")
         (simp_all add: HTTP_NOT_FOUND_def HTTP_BAD_REQUEST_def HTTP_SERVER_ERROR_def)
  qed
  have zero: "resolve w (server_host (conn st)) (server_port (conn st)) MAX_TARGETS = [] \<longrightarrow>
        attempts r = [] \<and> blacklisted r = [] \<and> http_code r = 404"
  proof
    assume "resolve w (server_host (conn st)) (server_port (conn st)) MAX_TARGETS = []"
    then have "call_targets (conn st) w (entry st) = []" by (rule call_targets_Nil)
    with call_post(1) [OF r] have "attempts r = []" by (simp add: performs_simps)
    then show "attempts r = [] \<and> blacklisted r = [] \<and> http_code r = 404"
      using none t(3) by simp
  qed
  from r none some zero show ?thesis by blast
qed

theorem outcome_code_witness:
  "private_rc call_no_targets = CURLE_OK \<and> clock_rv call_no_targets = 0 \<and>
   resolve call_no_targets (server_host (conn fresh_state)) (server_port (conn fresh_state)) MAX_TARGETS = [] \<and>
   send_request call_no_targets False fresh_state = Inr no_targets_result \<and>
   attempts no_targets_result = [] \<and> blacklisted no_targets_result = [] \<and>
   http_code no_targets_result = 404"
  using outcome_code [of call_no_targets False fresh_state] run_no_targets
  by (simp add: call_no_targets_def example_env_def no_targets_result_def)

text \<open>
  C1 as stated fails: the claim sends every transport failure other than
  remote-file-not-found, could-not-resolve, could-not-connect and URL-malformed to 500, and
  a call whose last attempt ends with \<^verbatim>\<open>CURLE_NOT_BUILT_IN\<close> returns 400 (and
  \<^verbatim>\<open>CURLE_AGAIN\<close> gives 404).
\<close>

theorem outcome_code_counterexample:
  "send_request call_not_built_in False fresh_state = Inr not_built_in_result \<and>
   rc (outcome (last (attempts not_built_in_result))) = CURLE_NOT_BUILT_IN \<and>
   http_code not_built_in_result = 400 \<and>
   http_code not_built_in_result \<noteq> 500 \<and>
   curl_code_to_http_code 0 CURLE_AGAIN = 404"
  using run_not_built_in
  by (simp add: not_built_in_result_def reply_def HTTP_NOT_FOUND_def)

text \<open>
  C2 (as amended). The attempts of a call are the performs on a front part of the candidate
  list, in order. The loop
  goes on to the next target after every attempt that has not ended it, and it ends before
  the list is exhausted only after an attempt that succeeded or at which the stopping rule
  holds (a fatal error just occurred, or 503 responses plus timeouts or I/O errors reached
  2, or a 504 response occurred). One abort event is emitted exactly when the last attempt
  failed and the stopping rule holds after it, tagged \<open>Permanent\<close> when that attempt was
  fatal and \<open>Temporary\<close> otherwise; no abort event is emitted when the list is exhausted
  without the stopping rule holding.
\<close>

theorem stopping_rule:
  assumes "send_request w hdr st = Inr r"
  shows "attempts r =
       performs w (is_connection_expired (now_ms_of w) (entry st)) 0
         (take (length (attempts r)) (call_targets (conn st) w (entry st))) \<and>
     length (attempts r) \<le> length (call_targets (conn st) w (entry st)) \<and>
     (length (attempts r) < length (call_targets (conn st) w (entry st)) \<longrightarrow> stopped (attempts r)) \<and>
     (\<forall>k. 0 < k \<and> k < length (attempts r) \<longrightarrow> \<not> stopped (take k (attempts r))) \<and>
     aborts r =
       (if attempts r \<noteq> [] \<and> \<not> attempt_ok (last (attempts r)) \<and> stop_rule (attempts r)
        then [if fatal (last (attempts r)) then Permanent else Temporary] else [])"
proof -
  from call_post(1) [OF assms] obtain k where k: "k \<le> length (call_targets (conn st) w (entry st))"
    "attempts r = performs w (is_connection_expired (now_ms_of w) (entry st)) 0
                          (take k (call_targets (conn st) w (entry st)))"
    "k < length (call_targets (conn st) w (entry st)) \<longrightarrow> stopped (attempts r)"
    by blast
  have len: "length (attempts r) = k" using k(1,2) by (simp add: length_performs)
  have "attempts r =
       performs w (is_connection_expired (now_ms_of w) (entry st)) 0
         (take (length (attempts r)) (call_targets (conn st) w (entry st)))"
    unfolding len by (rule k(2))
  moreover have "length (attempts r) \<le> length (call_targets (conn st) w (entry st))"
    using k(1) len by simp
  moreover have "length (attempts r) < length (call_targets (conn st) w (entry st)) \<longrightarrow> stopped (attempts r)"
    using k(3) len by simp
  ultimately show ?thesis using call_post(2,3) [OF assms] by (intro conjI)
qed

theorem stopping_rule_witness:
  "send_request call_double_503 False fresh_state = Inr double_503_result \<and>
   call_targets (conn fresh_state) call_double_503 (entry fresh_state) = [target_at 1, target_at 2] \<and>
   map target (attempts double_503_result) = [target_at 1, target_at 2] \<and>
   \<not> stopped (take 1 (attempts double_503_result)) \<and>
   stop_rule (attempts double_503_result) \<and>
   \<not> fatal (last (attempts double_503_result)) \<and>
   aborts double_503_result = [Temporary]"
proof -
  have "aborts double_503_result =
       (if attempts double_503_result \<noteq> [] \<and> \<not> attempt_ok (last (attempts double_503_result)) \<and>
           stop_rule (attempts double_503_result)
        then [if fatal (last (attempts double_503_result)) then Permanent else Temporary] else [])"
    using stopping_rule [OF run_double_503] by (elim conjE)
  moreover have "call_targets (conn fresh_state) call_double_503 (entry fresh_state) =
      [target_at 1, target_at 2]"
    by (simp add: call_double_503_def model_defs example_defs)
  moreover have "attempts double_503_result \<noteq> [] \<and>
      \<not> attempt_ok (last (attempts double_503_result)) \<and>
      map target (attempts double_503_result) = [target_at 1, target_at 2] \<and>
      \<not> stopped (take 1 (attempts double_503_result)) \<and>
      stop_rule (attempts double_503_result) \<and>
      \<not> fatal (last (attempts double_503_result))"
    by (simp add: double_503_result_def reply_def class_defs)
  ultimately show ?thesis using run_double_503 by simp
qed

text \<open>
  C2 as stated fails: with two targets that both cannot be connected to, the call stops
  without success when the list is exhausted, and emits no abort event, where the claim
  has an event tagged \<open>Temporary\<close>.
\<close>

theorem stopping_rule_counterexample:
  "send_request call_connect_fails False fresh_state = Inr connect_fails_result \<and>
   length (attempts connect_fails_result) = 2 \<and>
   \<not> attempt_ok (last (attempts connect_fails_result)) \<and>
   aborts connect_fails_result = [] \<and>
   aborts connect_fails_result \<noteq> [Temporary]"
  using run_connect_fails
  by (simp add: connect_fails_result_def reply_def class_defs)

text \<open>
  C3. With a load monitor attached, \<^verbatim>\<open>incr_penalties\<close> is called once, after the loop, when
  the attempts of the call saw two or more 503 responses or one or more 504 responses, and
  is not called otherwise (nor without a load monitor).
\<close>

theorem penalty_after_loop:
  assumes "send_request w hdr st = Inr r"
  shows "incr_penalties r =
           (if load_monitor (conn st) \<and>
               (count_of http_503 (attempts r) \<ge> 2 \<or> count_of http_504 (attempts r) \<ge> 1)
            then 1 else 0)"
proof -
  note f = finish_request_Inr [OF send_request_Inr [OF assms]]
  show ?thesis
    unfolding f(5) call_tracks(1,2) [OF assms] by simp
qed

theorem penalty_after_loop_witness:
  "send_request call_double_503 False fresh_state = Inr double_503_result \<and>
   load_monitor (conn fresh_state) \<and>
   count_of http_503 (attempts double_503_result) = 2 \<and>
   incr_penalties double_503_result = 1"
  using penalty_after_loop [OF run_double_503] run_double_503
  by (simp add: double_503_result_def fresh_state_def example_conn_def reply_def class_defs)

text \<open>
  C4 (as amended). When the resolver returns at least one candidate, at least one attempt is
  made. When it returns exactly one candidate, the list is made two copies of it, one or
  two attempts are made, all on that target, and the second attempt is made exactly when
  the first ended with a 503 response, a timeout or I/O error, or a connect-level
  failure: a success, a fatal error or a 504 response ends the call after one attempt.
\<close>

theorem retry_single_target:
  assumes "send_request w hdr st = Inr r"
  shows "(resolve w (server_host (conn st)) (server_port (conn st)) MAX_TARGETS \<noteq> [] \<longrightarrow>
            attempts r \<noteq> []) \<and>
         (resolve w (server_host (conn st)) (server_port (conn st)) MAX_TARGETS = [t] \<longrightarrow>
            call_targets (conn st) w (entry st) = [t, t] \<and>
            (length (attempts r) = 1 \<or> length (attempts r) = 2) \<and>
            (\<forall>a \<in> set (attempts r). target a = t) \<and>
            (length (attempts r) = 2) =
              (http_503 (hd (attempts r)) \<or> timeout_or_io (hd (attempts r)) \<or>
               connect_failure (hd (attempts r))))"
proof -
  let ?ts = "call_targets (conn st) w (entry st)"
  from call_post(1) [OF assms] obtain k where k: "k \<le> length ?ts"
    "attempts r = performs w (is_connection_expired (now_ms_of w) (entry st)) 0 (take k ?ts)"
    "?ts \<noteq> [] \<longrightarrow> 0 < k" "k < length ?ts \<longrightarrow> stopped (attempts r)"
    by blast
  have len: "length (attempts r) = k" using k(1,2) by (simp add: length_performs)
  have tg: "map target (attempts r) = take k ?ts" unfolding k(2) by (rule target_performs)
  have some: "resolve w (server_host (conn st)) (server_port (conn st)) MAX_TARGETS \<noteq> [] \<longrightarrow>
            attempts r \<noteq> []"
    using call_targets_nonempty [of w "conn st" "entry st"] k(3) len by auto
  have one: "resolve w (server_host (conn st)) (server_port (conn st)) MAX_TARGETS = [t] \<longrightarrow>
            ?ts = [t, t] \<and>
            (length (attempts r) = 1 \<or> length (attempts r) = 2) \<and>
            (\<forall>a \<in> set (attempts r). target a = t) \<and>
            (length (attempts r) = 2) =
              (http_503 (hd (attempts r)) \<or> timeout_or_io (hd (attempts r)) \<or>
               connect_failure (hd (attempts r)))"
  proof
    assume "resolve w (server_host (conn st)) (server_port (conn st)) MAX_TARGETS = [t]"
    then have ts: "?ts = [t, t]" by (rule call_targets_single)
    have k12: "k = 1 \<or> k = 2" using k(1,3) ts by auto
    have all: "\<forall>a \<in> set (attempts r). target a = t"
    proof
      fix a assume "a \<in> set (attempts r)"
      then have "target a \<in> set (map target (attempts r))" by simp
      then have "target a \<in> set (take k [t, t])" using tg ts by simp
      then have "target a \<in> set [t, t]" by (rule in_set_takeD)
      then show "target a = t" by simp
    qed
    have ne: "attempts r \<noteq> []" using k12 len by auto
    have first: "take 1 (attempts r) = [hd (attempts r)]"
      using ne by (cases "attempts r") simp_all
    have two: "(length (attempts r) = 2) = (\<not> stopped [hd (attempts r)])"
    proof
      assume l2: "length (attempts r) = 2"
      from call_post(2) [OF assms]
      have "0 < (1::nat) \<and> 1 < length (attempts r) \<longrightarrow> \<not> stopped (take 1 (attempts r))"
        by blast
      then show "\<not> stopped [hd (attempts r)]"
        using l2 first by simp
    next
      assume ns: "\<not> stopped [hd (attempts r)]"
      show "length (attempts r) = 2"
      proof (rule ccontr)
        assume "length (attempts r) \<noteq> 2"
        then have k1: "k = 1" using k12 len by simp
        then have "stopped (attempts r)" using k(4) ts by simp
        moreover have "attempts r = [hd (attempts r)]"
          using k1 len first by simp
        ultimately show False using ns by simp
      qed
    qed
    show "?ts = [t, t] \<and>
            (length (attempts r) = 1 \<or> length (attempts r) = 2) \<and>
            (\<forall>a \<in> set (attempts r). target a = t) \<and>
            (length (attempts r) = 2) =
              (http_503 (hd (attempts r)) \<or> timeout_or_io (hd (attempts r)) \<or>
               connect_failure (hd (attempts r)))"
      using ts k12 len all two not_stopped_single by simp
  qed
  from some one show ?thesis by blast
qed

theorem retry_single_target_witness:
  "send_request call_single_retry False fresh_state = Inr single_retry_result \<and>
   resolve call_single_retry (server_host (conn fresh_state)) (server_port (conn fresh_state)) MAX_TARGETS =
     [target_at 1] \<and>
   call_targets (conn fresh_state) call_single_retry (entry fresh_state) = [target_at 1, target_at 1] \<and>
   http_503 (hd (attempts single_retry_result)) \<and>
   length (attempts single_retry_result) = 2 \<and>
   map target (attempts single_retry_result) = [target_at 1, target_at 1]"
  using retry_single_target [OF run_single_retry, of "target_at 1"] run_single_retry
  by (simp add: call_single_retry_def single_retry_result_def example_env_def reply_def http_503_def)

text \<open>
  C4 as stated fails: with one candidate that answers 200 at once, one attempt is made,
  not two.
\<close>

theorem retry_single_target_counterexample:
  "send_request call_single_ok False fresh_state = Inr single_ok_result \<and>
   resolve call_single_ok (server_host (conn fresh_state)) (server_port (conn fresh_state)) MAX_TARGETS =
     [target_at 1] \<and>
   length (attempts single_ok_result) = 1 \<and>
   \<not> 2 \<le> length (attempts single_ok_result)"
  using run_single_ok
  by (simp add: call_single_ok_def single_ok_result_def example_env_def)

text \<open>
  C5 (as amended). The calls of \<^verbatim>\<open>blacklist\<close> are, in order, the targets of the attempts
  that forced a new connection and ended in a connect-level failure or in a timeout or
  I/O error: every transport failure other than remote-file-not-found and
  remote-access-denied. An attempt forces a new connection exactly when the connection was
  expired at the start of the call.
\<close>

theorem blacklist_on_fresh_failure:
  assumes "send_request w hdr st = Inr r"
  shows "blacklisted r =
           map target (filter (\<lambda>a. fresh_connect a \<and> (connect_failure a \<or> timeout_or_io a)) (attempts r)) \<and>
         (\<forall>a \<in> set (attempts r). fresh_connect a = is_connection_expired (now_ms_of w) (entry st))"
  using call_tracks(3,4) [OF assms] by (simp add: blacklist_due_classes)

theorem blacklist_on_fresh_failure_witness:
  "send_request call_connect_then_ok False fresh_state = Inr connect_then_ok_result \<and>
   is_connection_expired (now_ms_of call_connect_then_ok) (entry fresh_state) \<and>
   map connect_failure (attempts connect_then_ok_result) = [True, False] \<and>
   map fresh_connect (attempts connect_then_ok_result) = [True, True] \<and>
   blacklisted connect_then_ok_result = [target_at 1]"
  using blacklist_on_fresh_failure [OF run_connect_then_ok] run_connect_then_ok
  by (simp add: connect_then_ok_result_def call_connect_then_ok_def example_env_def fresh_state_def
        new_PoolEntry_def is_connection_expired_def now_ms_of_def reply_def class_defs)

text \<open>
  C5 as stated fails: an attempt on a forced-new connection that times out is not a
  connect-level failure, and its target is blacklisted.
\<close>

theorem blacklist_on_fresh_failure_counterexample:
  "send_request call_timeout_then_ok False fresh_state = Inr timeout_then_ok_result \<and>
   fresh_connect (hd (attempts timeout_then_ok_result)) \<and>
   timeout_or_io (hd (attempts timeout_then_ok_result)) \<and>
   \<not> connect_failure (hd (attempts timeout_then_ok_result)) \<and>
   target (hd (attempts timeout_then_ok_result)) = target_at 1 \<and>
   blacklisted timeout_then_ok_result = [target_at 1]"
  using run_timeout_then_ok
  by (simp add: timeout_then_ok_result_def reply_def class_defs)








lemma remote_ip_after_call:
  assumes "send_request w hdr st = Inr r"
  shows "remote_ip (entry (after r)) =
           (if attempts r \<noteq> [] \<and> rc (outcome (last (attempts r))) = CURLE_OK
            then buf_after_loop w (inet_ntop w (address (target (last (attempts r))))) else [])"
proof -
  note f = finish_request_Inr [OF send_request_Inr [OF assms]]
  note t = call_tracks [OF assms]
  show ?thesis
    using t(9) by (simp add: f(8) t(7))
qed

text \<open>
  C7 fails on the code. After a last attempt whose transport succeeded, the remote IP of the
  pool entry is what is read through \<^verbatim>\<open>remote_ip\<close> once the loop is left, when the array
  it points into is out of scope, and not the printable address of the last attempted
  target: in a build where the place of the array has been used again, a call on the
  single target \<open>10.0.0.1\<close> that answers 200 leaves the bytes found on the stack as the
  remote IP (and counts them in the statistics table).
\<close>

theorem remote_ip_out_of_scope:
  "send_request call_buf_reused False fresh_state = Inr buf_reused_result \<and>
   rc (outcome (last (attempts buf_reused_result))) = CURLE_OK \<and>
   inet_ntop call_buf_reused (address (target (last (attempts buf_reused_result)))) = ''10.0.0.1'' \<and>
   remote_ip (entry (after buf_reused_result)) = stack_bytes \<and>
   remote_ip (entry (after buf_reused_result)) \<noteq> ''10.0.0.1''"
  using run_buf_reused
  by (simp add: buf_reused_result_def call_buf_reused_def call_single_ok_def stack_bytes_def
        example_defs)

lemma update_deadline_step:
  "deadline_ms (update_deadline now_ms interval_ms e) =
     (if deadline_ms e = 0 \<or> deadline_ms e + interval_ms < now_ms
      then now_ms + interval_ms else deadline_ms e + interval_ms)"
  by (simp add: update_deadline_def)

lemma update_deadline_mono:
  assumes d: "unat (deadline_ms e) + unat interval_ms < 2 ^ 64"
    and n: "unat now_ms + unat interval_ms < 2 ^ 64"
  shows "deadline_ms e \<le> deadline_ms (update_deadline now_ms interval_ms e)"
proof -
  have a: "unat (deadline_ms e + interval_ms) = unat (deadline_ms e) + unat interval_ms"
    using d unat_add_lem [of "deadline_ms e" interval_ms] by simp
  have b: "unat (now_ms + interval_ms) = unat now_ms + unat interval_ms"
    using n unat_add_lem [of now_ms interval_ms] by simp
  show ?thesis
    unfolding update_deadline_step
    by (auto simp: word_le_nat_alt word_less_nat_alt a b)
qed

lemma update_deadlines_mono:
  "within_range calls e \<Longrightarrow> deadline_ms e \<le> deadline_ms (update_deadlines calls e)"
proof (induction calls arbitrary: e)
  case Nil
  then show ?case by simp
next
  case (Cons c calls)
  obtain now_ms interval_ms where c: "c = (now_ms, interval_ms)" by (cases c)
  from Cons.prems c have r: "unat (deadline_ms e) + unat interval_ms < 2 ^ 64"
    "unat now_ms + unat interval_ms < 2 ^ 64"
    "within_range calls (update_deadline now_ms interval_ms e)"
    by simp_all
  have "deadline_ms e \<le> deadline_ms (update_deadline now_ms interval_ms e)"
    by (rule update_deadline_mono [OF r(1,2)])
  also have "\<dots> \<le> deadline_ms (update_deadlines calls (update_deadline now_ms interval_ms e))"
    by (rule Cons.IH [OF r(3)])
  finally show ?case by (simp add: c)
qed

text \<open>
  C8. \<^verbatim>\<open>update_deadline\<close> sets the deadline to \<open>now_ms + interval\<close> when the deadline is 0 or
  \<open>deadline_ms + interval < now_ms\<close>, and to \<open>deadline_ms + interval\<close> otherwise. Over every
  sequence of updates whose 64-bit additions do not wrap around, the deadline never
  decreases.
\<close>

theorem deadline_never_decreases:
  "deadline_ms (update_deadline now_ms interval_ms e) =
     (if deadline_ms e = 0 \<or> deadline_ms e + interval_ms < now_ms
      then now_ms + interval_ms else deadline_ms e + interval_ms) \<and>
   (within_range calls e \<longrightarrow> deadline_ms e \<le> deadline_ms (update_deadlines calls e))"
  using update_deadline_step update_deadlines_mono by blast

theorem deadline_never_decreases_witness:
  "within_range [(100000, 60000), (100500, 1000), (300000, 5)] new_PoolEntry \<and>
   map (\<lambda>calls. deadline_ms (update_deadlines calls new_PoolEntry))
     [[], [(100000, 60000)], [(100000, 60000), (100500, 1000)],
      [(100000, 60000), (100500, 1000), (300000, 5)]] = [0, 160000, 161000, 300005] \<and>
   deadline_ms new_PoolEntry \<le>
     deadline_ms (update_deadlines [(100000, 60000), (100500, 1000), (300000, 5)] new_PoolEntry)"
  using deadline_never_decreases [of 100000 60000 new_PoolEntry
      "[(100000, 60000), (100500, 1000), (300000, 5)]"]
  by (simp add: new_PoolEntry_def update_deadline_def)

lemma set_remote_ip_same: "remote_ip e = x \<Longrightarrow> set_remote_ip x (p, e) = (p, e)"
  by (simp add: set_remote_ip_def)

lemma set_remote_ip_twice: "set_remote_ip x (set_remote_ip x (p, e)) = set_remote_ip x (p, e)"
proof -
  obtain p' e' where pe: "set_remote_ip x (p, e) = (p', e')"
    by (cases "set_remote_ip x (p, e)") blast
  have "e' = e\<lparr>remote_ip := x\<rparr>"
    using set_remote_ip_entry [of x p e] pe by simp
  then have "remote_ip e' = x" by simp
  then show ?thesis unfolding pe by (rule set_remote_ip_same)
qed

lemma set_remote_ip_counts:
  assumes "stat_table p = Some t" and "x \<noteq> []" and "remote_ip e \<noteq> x"
  shows "map_option (\<lambda>t'. row_count t' x) (stat_table (fst (set_remote_ip x (p, e)))) =
           Some (row_count t x + 1)"
    and "lock_count (fst (set_remote_ip x (p, e))) = Suc (lock_count p)"
  using assms
  by (auto simp: set_remote_ip_def update_snmp_ip_counts_def get_increment_def get_decrement_def
        remove_row_def row_count_def Let_def)

text \<open>
  C9. \<^verbatim>\<open>set_remote_ip(x)\<close> with \<open>x\<close> the stored remote IP changes nothing: no counter and no
  lock. So a second \<^verbatim>\<open>set_remote_ip(x)\<close> changes nothing after the first, and two calls
  with a new non-empty \<open>x\<close> raise the counter of \<open>x\<close> by one and take the lock once.
\<close>

theorem set_remote_ip_idempotent:
  "(remote_ip e = x \<longrightarrow> set_remote_ip x (p, e) = (p, e)) \<and>
   set_remote_ip x (set_remote_ip x (p, e)) = set_remote_ip x (p, e) \<and>
   (stat_table p = Some t \<and> x \<noteq> [] \<and> remote_ip e \<noteq> x \<longrightarrow>
      map_option (\<lambda>t'. row_count t' x)
        (stat_table (fst (set_remote_ip x (set_remote_ip x (p, e))))) = Some (row_count t x + 1) \<and>
      lock_count (fst (set_remote_ip x (set_remote_ip x (p, e)))) = Suc (lock_count p))"
  using set_remote_ip_same [of e x p] set_remote_ip_twice [of x p e]
    set_remote_ip_counts [of p t x e]
  by simp

theorem set_remote_ip_idempotent_witness:
  "stat_table (conn warm_state) = Some [''10.0.0.2'' \<mapsto> 1] \<and>
   remote_ip (entry warm_state) \<noteq> ''10.0.0.1'' \<and>
   set_remote_ip ''10.0.0.2'' (conn warm_state, entry warm_state) = (conn warm_state, entry warm_state) \<and>
   set_remote_ip ''10.0.0.1'' (set_remote_ip ''10.0.0.1'' (conn warm_state, entry warm_state)) =
     set_remote_ip ''10.0.0.1'' (conn warm_state, entry warm_state) \<and>
   set_remote_ip ''10.0.0.1'' (conn warm_state, entry warm_state) =
     (example_conn\<lparr>stat_table := Some [''10.0.0.1'' \<mapsto> 1], lock_count := 1\<rparr>,
      \<lparr>deadline_ms = 160000, remote_ip = ''10.0.0.1''\<rparr>)"
  using set_remote_ip_idempotent [of "entry warm_state" "''10.0.0.2''" "conn warm_state"]
    set_remote_ip_idempotent [of "entry warm_state" "''10.0.0.1''" "conn warm_state"
      "[''10.0.0.2'' \<mapsto> 1]"]
  by (simp add: warm_state_def example_conn_def set_remote_ip_def update_snmp_ip_counts_def
        get_increment_def get_decrement_def remove_row_def row_count_def Let_def)

lemma write_headers_hit: "write_headers l m (header_key l) = Some (header_val l)"
  by (simp add: write_headers_def)

lemma write_headers_skip: "header_key l \<noteq> k \<Longrightarrow> write_headers l m k = m k"
  by (simp add: write_headers_def)

lemma write_headers_other:
  "\<forall>l \<in> set ls. header_key l \<noteq> k \<Longrightarrow> fold write_headers ls m k = m k"
proof (induction ls arbitrary: m)
  case Nil
  then show ?case by simp
next
  case (Cons a ls)
  have "fold write_headers (a # ls) m k = write_headers a m k"
    using Cons by simp
  also have "\<dots> = m k"
    using Cons.prems by (simp add: write_headers_skip)
  finally show ?case .
qed

lemma write_headers_dom:
  "l \<in> set ls \<Longrightarrow> header_key l \<in> dom (fold write_headers ls m)"
proof (induction ls arbitrary: m rule: rev_induct)
  case Nil
  then show ?case by simp
next
  case (snoc x xs)
  have f: "fold write_headers (xs @ [x]) m = write_headers x (fold write_headers xs m)"
    by simp
  show ?case
  proof (cases "header_key x = header_key l")
    case True
    have "write_headers x (fold write_headers xs m) (header_key l) = Some (header_val x)"
      using write_headers_hit [of x] True by simp
    then show ?thesis unfolding f by blast
  next
    case False
    then have "l \<in> set xs" using snoc.prems by auto
    from snoc.IH [OF this, of m] obtain v where "fold write_headers xs m (header_key l) = Some v"
      by blast
    then have "write_headers x (fold write_headers xs m) (header_key l) = Some v"
      using False by (simp add: write_headers_skip)
    then show ?thesis unfolding f by blast
  qed
qed

lemma write_headers_any:
  "l \<in> set ls \<Longrightarrow> fold write_headers ls m (header_key l) = fold write_headers ls m' (header_key l)"
proof (induction ls arbitrary: m m' rule: rev_induct)
  case Nil
  then show ?case by simp
next
  case (snoc x xs)
  have f: "\<And>m. fold write_headers (xs @ [x]) m = write_headers x (fold write_headers xs m)"
    by simp
  show ?case
  proof (cases "header_key x = header_key l")
    case True
    have "\<And>m. write_headers x m (header_key l) = Some (header_val x)"
      using write_headers_hit [of x] True by simp
    then show ?thesis unfolding f by simp
  next
    case False
    then have "l \<in> set xs" using snoc.prems by auto
    from snoc.IH [OF this, of m m']
    have "fold write_headers xs m (header_key l) = fold write_headers xs m' (header_key l)" .
    then show ?thesis unfolding f using False by (simp add: write_headers_skip)
  qed
qed

lemma headers_of_attempts:
  assumes "as = as1 @ a # as2" and "l \<in> set (header_lines (outcome a))"
  shows "header_key l \<in> dom (fold write_headers (concat (map (\<lambda>a. header_lines (outcome a)) as)) m)"
    and "\<forall>b \<in> set as2. \<forall>l' \<in> set (header_lines (outcome b)). header_key l' \<noteq> header_key l \<Longrightarrow>
         fold write_headers (concat (map (\<lambda>a. header_lines (outcome a)) as)) m (header_key l) =
         fold write_headers (header_lines (outcome a)) Map.empty (header_key l)"
proof -
  let ?lines = "\<lambda>as. concat (map (\<lambda>a. header_lines (outcome a)) as)"
  have "l \<in> set (?lines as)" using assms by auto
  then show "header_key l \<in> dom (fold write_headers (?lines as) m)"
    by (rule write_headers_dom)
  assume later: "\<forall>b \<in> set as2. \<forall>l' \<in> set (header_lines (outcome b)). header_key l' \<noteq> header_key l"
  have split: "fold write_headers (?lines as) m =
      fold write_headers (?lines as2)
        (fold write_headers (header_lines (outcome a)) (fold write_headers (?lines as1) m))"
    by (simp add: assms(1))
  have "\<forall>l' \<in> set (?lines as2). header_key l' \<noteq> header_key l" using later by auto
  then have "fold write_headers (?lines as) m (header_key l) =
      fold write_headers (header_lines (outcome a)) (fold write_headers (?lines as1) m) (header_key l)"
    unfolding split by (rule write_headers_other)
  also have "\<dots> = fold write_headers (header_lines (outcome a)) Map.empty (header_key l)"
    by (rule write_headers_any [OF assms(2)])
  finally show "fold write_headers (?lines as) m (header_key l) =
         fold write_headers (header_lines (outcome a)) Map.empty (header_key l)" .
qed

text \<open>
  C10. After a \<^verbatim>\<open>send_put\<close> or a \<^verbatim>\<open>send_post\<close> the map of response headers is the
  caller's map with the header lines of all the attempts written to it in order: the key
  of a line received in any attempt is in the returned map, and it has the value that this
  attempt gave it unless a later attempt delivers a line with the same key. The document
  holds the body blocks of the last attempt only.
\<close>

theorem headers_kept_body_cleared:
  assumes "send_put w st = Inr r \<or> send_post w st = Inr r"
  shows "headers (after r) =
           fold write_headers (concat (map (\<lambda>a. header_lines (outcome a)) (attempts r))) (headers st) \<and>
         (\<forall>as1 a as2 l. attempts r = as1 @ a # as2 \<and> l \<in> set (header_lines (outcome a)) \<longrightarrow>
            header_key l \<in> dom (headers (after r)) \<and>
            ((\<forall>b \<in> set as2. \<forall>l' \<in> set (header_lines (outcome b)). header_key l' \<noteq> header_key l) \<longrightarrow>
               headers (after r) (header_key l) =
               fold write_headers (header_lines (outcome a)) Map.empty (header_key l))) \<and>
         doc (after r) =
           (if attempts r = [] then doc st else concat (body_blocks (outcome (last (attempts r)))))"
proof -
  from assms have r: "send_request w True st = Inr r"
    by (auto simp: send_put_def send_post_def)
  have h: "headers (after r) =
           fold write_headers (concat (map (\<lambda>a. header_lines (outcome a)) (attempts r))) (headers st)"
    using call_tracks(5) [OF r] by simp
  have d: "doc (after r) =
           (if attempts r = [] then doc st else concat (body_blocks (outcome (last (attempts r)))))"
    by (rule call_tracks(6) [OF r])
  have k: "\<forall>as1 a as2 l. attempts r = as1 @ a # as2 \<and> l \<in> set (header_lines (outcome a)) \<longrightarrow>
            header_key l \<in> dom (headers (after r)) \<and>
            ((\<forall>b \<in> set as2. \<forall>l' \<in> set (header_lines (outcome b)). header_key l' \<noteq> header_key l) \<longrightarrow>
               headers (after r) (header_key l) =
               fold write_headers (header_lines (outcome a)) Map.empty (header_key l))"
  proof (intro allI impI, elim conjE)
    fix as1 a as2 l
    assume a: "attempts r = as1 @ a # as2" and l: "l \<in> set (header_lines (outcome a))"
    show "header_key l \<in> dom (headers (after r)) \<and>
            ((\<forall>b \<in> set as2. \<forall>l' \<in> set (header_lines (outcome b)). header_key l' \<noteq> header_key l) \<longrightarrow>
               headers (after r) (header_key l) =
               fold write_headers (header_lines (outcome a)) Map.empty (header_key l))"
      unfolding h
      using headers_of_attempts(1) [OF a l, of "headers st"]
        headers_of_attempts(2) [OF a l, of "headers st"]
      by (intro conjI impI)
  qed
  from h k d show ?thesis by (intro conjI)
qed

theorem headers_kept_body_cleared_witness:
  "send_put call_put fresh_state = Inr put_result \<and>
   length (attempts put_result) = 2 \<and>
   header_key (''Retry-After: 5'' @ crlf) = ''retry-after'' \<and>
   ''Retry-After: 5'' @ crlf \<in> set (header_lines (outcome (hd (attempts put_result)))) \<and>
   ''retry-after'' \<notin> set (map header_key (header_lines (outcome (last (attempts put_result))))) \<and>
   headers (after put_result) ''retry-after'' = Some ''5'' \<and>
   headers (after put_result) ''x-node'' = Some ''b'' \<and>
   body_blocks (outcome (hd (attempts put_result))) = [''bu'', ''sy''] \<and>
   doc (after put_result) = ''ok''"
proof -
  from headers_kept_body_cleared [OF disjI1, OF run_put]
  have "doc (after put_result) =
          (if attempts put_result = [] then doc fresh_state
           else concat (body_blocks (outcome (last (attempts put_result)))))"
    by (elim conjE)
  then have d: "doc (after put_result) = ''ok''"
    by (simp add: put_result_def reply_def)
  have k: "header_key (''Retry-After: 5'' @ crlf) = ''retry-after''"
    by (simp add: header_key_def isspace_def tolower_def crlf_def)
  have k2: "map header_key ok_lines = [''http/1.1200ok'', ''x-node'', []]"
    by (simp add: ok_lines_def header_key_def isspace_def tolower_def crlf_def)
  have a: "length (attempts put_result) = 2"
    "header_lines (outcome (hd (attempts put_result))) = busy_lines"
    "header_lines (outcome (last (attempts put_result))) = ok_lines"
    "body_blocks (outcome (hd (attempts put_result))) = [''bu'', ''sy'']"
    by (simp_all add: put_result_def reply_def)
  have m: "''Retry-After: 5'' @ crlf \<in> set busy_lines"
    by (simp add: busy_lines_def)
  have h: "headers (after put_result) ''retry-after'' = Some ''5''"
    "headers (after put_result) ''x-node'' = Some ''b''"
    by (simp_all add: put_result_def)
  show ?thesis
    unfolding a k k2
    using d run_put m h by simp
qed

end
